theory Spec2Isabelle
  imports Complex_Main "HOL-Library.Char_ord" "HOL-Library.List_Lexorder"
begin

section \<open>Duplicate suffixes of node group names (geonodes/components.py)\<close>

text \<open>
  \<^verbatim>\<open>DUPLICATE_SUFFIX_RE = re.compile(r"(\.\d+)$")\<close> and
  \<^verbatim>\<open>remove_duplicate_suffix(name) = DUPLICATE_SUFFIX_RE.sub("", name)\<close>.

  A Python \<^verbatim>\<open>str\<close> is a list of code points; \<open>str\<close> gives the code points of a literal.
  On a \<^verbatim>\<open>str\<close> pattern \<^verbatim>\<open>\d\<close> matches every character that the Unicode database of the
  interpreter lists as a decimal digit, the digits of other scripts included. That table is
  not part of the repository: it is the parameter \<open>digit\<close> of the functions below. Without
  the MULTILINE flag \<^verbatim>\<open>$\<close> matches at the end of the string and also just before a newline
  that is the last character.
\<close>

type_synonym codepoint = nat

definition str :: "string \<Rightarrow> codepoint list" where
  "str s = map of_char s"

definition dot :: codepoint where
  "dot = 46"

definition newline :: codepoint where
  "newline = 10"

definition at_end :: "codepoint list \<Rightarrow> bool" where
  "at_end s = (s = [] \<or> s = [newline])"

text \<open>
  \<^verbatim>\<open>\d+$\<close> tried at the start of a string: the greedy repetition first takes one more
  digit, and gives it back when the rest does not match. The result is what follows the match.
\<close>

fun digits_then_end :: "(codepoint \<Rightarrow> bool) \<Rightarrow> codepoint list \<Rightarrow> codepoint list option" where
  "digits_then_end digit [] = None"
| "digits_then_end digit (c # cs) =
     (if digit c
      then (case digits_then_end digit cs of
              Some r \<Rightarrow> Some r
            | None \<Rightarrow> (if at_end cs then Some cs else None))
      else None)"

text \<open>The whole pattern \<^verbatim>\<open>(\.\d+)$\<close> tried at the start of a string.\<close>

definition match_here :: "(codepoint \<Rightarrow> bool) \<Rightarrow> codepoint list \<Rightarrow> codepoint list option" where
  "match_here digit s =
     (case s of
        [] \<Rightarrow> None
      | c # cs \<Rightarrow> (if c = dot then digits_then_end digit cs else None))"

text \<open>
  \<^verbatim>\<open>pattern.sub("", s)\<close>: scan from the left; where the pattern matches, drop the match
  and go on after it; elsewhere keep the character and move one position on.
\<close>

function sub_empty :: "(codepoint \<Rightarrow> bool) \<Rightarrow> codepoint list \<Rightarrow> codepoint list" where
  "sub_empty digit [] = []"
| "sub_empty digit (c # cs) =
     (case match_here digit (c # cs) of
        Some r \<Rightarrow> sub_empty digit r
      | None \<Rightarrow> c # sub_empty digit cs)"
  by pat_completeness auto
termination
proof (relation "measure (\<lambda>(digit, s). length s)")
  show "wf (measure (\<lambda>(digit :: codepoint \<Rightarrow> bool, s :: codepoint list). length s))"
    by simp
next
  fix digit :: "codepoint \<Rightarrow> bool" and c :: codepoint and cs r :: "codepoint list"
  assume m: "match_here digit (c # cs) = Some r"
  have shorter: "digits_then_end digit s = Some t \<Longrightarrow> length t \<le> length s" for s t
    by (induction s) (auto split: if_splits option.splits)
  from m have "length r < length (c # cs)"
    by (auto simp: match_here_def split: if_splits dest: shorter)
  then show "((digit, r), (digit, c # cs)) \<in> measure (\<lambda>(digit, s). length s)"
    by simp
next
  fix digit :: "codepoint \<Rightarrow> bool" and c :: codepoint and cs :: "codepoint list"
  show "((digit, cs), (digit, c # cs)) \<in> measure (\<lambda>(digit, s). length s)"
    by simp
qed

definition remove_duplicate_suffix :: "(codepoint \<Rightarrow> bool) \<Rightarrow> codepoint list \<Rightarrow> codepoint list" where
  "remove_duplicate_suffix digit name = sub_empty digit name"

text \<open>
  The claim's own words, for comparison: a name that ends in a dot followed by one or more
  digits loses that ending, any other name stays as it is.
\<close>

definition strip_trailing_suffix :: "(codepoint \<Rightarrow> bool) \<Rightarrow> codepoint list \<Rightarrow> codepoint list" where
  "strip_trailing_suffix digit name =
     (let ds = takeWhile digit (rev name); rest = dropWhile digit (rev name)
      in if ds \<noteq> [] \<and> rest \<noteq> [] \<and> hd rest = dot then rev (tl rest) else name)"

text \<open>A table of decimal digits that holds 0 to 9 and nothing else.\<close>

definition ascii_digit :: "codepoint \<Rightarrow> bool" where
  "ascii_digit c = (48 \<le> c \<and> c \<le> 57)"

section \<open>The bar chart operator (operators/bar_chart.py)\<close>

subsection \<open>Data, exceptions and the operator's properties\<close>

text \<open>
  \<^verbatim>\<open>self.data\<close> is a list of rows, each a list of fields: a number or a category string.
  Numbers are real numbers here: the rounding of floating point is left out.
\<close>

datatype cell = Num real | Cat string

type_synonym row = "cell list"

datatype error =
  IndexError | ValueError | TypeError | ZeroDivisionError | AssertionError | EmptyDataError

text \<open>\<^verbatim>\<open>entry[k]\<close> raises IndexError past the end of the row.\<close>

definition item :: "row \<Rightarrow> nat \<Rightarrow> error + cell" where
  "item entry k = (if k < length entry then Inr (entry ! k) else Inl IndexError)"

text \<open>\<^verbatim>\<open>a < b\<close>: numbers by value, strings lexicographically, a number with a string raises TypeError.\<close>

fun cell_less :: "cell \<Rightarrow> cell \<Rightarrow> error + bool" where
  "cell_less (Num a) (Num b) = Inr (a < b)"
| "cell_less (Cat a) (Cat b) = Inr (a < b)"
| "cell_less (Num a) (Cat b) = Inl TypeError"
| "cell_less (Cat a) (Num b) = Inl TypeError"

text \<open>
  \<^verbatim>\<open>min(rows, key=lambda val: val[1])[1]\<close>: the key of the first row starts as the best one,
  every later row's key replaces it when it is smaller; an empty list raises ValueError.
  \<^verbatim>\<open>max\<close> replaces the best key when the new one is greater.
\<close>

fun min_scan :: "cell \<Rightarrow> row list \<Rightarrow> error + cell" where
  "min_scan best [] = Inr best"
| "min_scan best (r # rs) =
     (case item r 1 of
        Inl e \<Rightarrow> Inl e
      | Inr k \<Rightarrow>
          (case cell_less k best of
             Inl e \<Rightarrow> Inl e
           | Inr b \<Rightarrow> min_scan (if b then k else best) rs))"

definition min_value :: "row list \<Rightarrow> error + cell" where
  "min_value rows =
     (case rows of
        [] \<Rightarrow> Inl ValueError
      | r # rs \<Rightarrow> (case item r 1 of Inl e \<Rightarrow> Inl e | Inr k \<Rightarrow> min_scan k rs))"

fun max_scan :: "cell \<Rightarrow> row list \<Rightarrow> error + cell" where
  "max_scan best [] = Inr best"
| "max_scan best (r # rs) =
     (case item r 1 of
        Inl e \<Rightarrow> Inl e
      | Inr k \<Rightarrow>
          (case cell_less best k of
             Inl e \<Rightarrow> Inl e
           | Inr b \<Rightarrow> max_scan (if b then k else best) rs))"

definition max_value :: "row list \<Rightarrow> error + cell" where
  "max_value rows =
     (case rows of
        [] \<Rightarrow> Inl ValueError
      | r # rs \<Rightarrow> (case item r 1 of Inl e \<Rightarrow> Inl e | Inr k \<Rightarrow> max_scan k rs))"

text \<open>The enum properties \<^verbatim>\<open>dimensions\<close> ('3', '2') and \<^verbatim>\<open>data_type\<close> ('0', '1').\<close>

datatype dims = D3 | D2

datatype chart_type = Numerical | Categorical

record DV_AxisPropertyGroup =
  x_range :: "real \<times> real"
  y_range :: "real \<times> real"
  auto_ranges :: bool
  x_step :: real
  y_step :: real
  z_step :: real
  padding :: real
  auto_steps :: bool

text \<open>
  The operator. \<^verbatim>\<open>data\<close> is the table \<^verbatim>\<open>init_data()\<close> loaded from the data manager.
\<close>

record OBJECT_OT_BarChart =
  dimensions :: dims
  data_type :: chart_type
  bar_size :: "real \<times> real"
  axis_settings :: DV_AxisPropertyGroup
  data :: "row list"

subsection \<open>What a run leaves in the scene\<close>

text \<open>
  A bar is a cube with its scale and location set. \<^verbatim>\<open>container_object\<close> says that
  \<^verbatim>\<open>create_container()\<close> has made the chart's container, \<^verbatim>\<open>unplaced_cubes\<close> counts cubes that
  \<^verbatim>\<open>primitive_cube_add\<close> made and an exception left as they were, \<^verbatim>\<open>axes\<close> holds the arguments
  of \<^verbatim>\<open>AxisFactory.create\<close>. Materials and label texts go to the host unchanged and are left out.
\<close>

record bar =
  scale :: "real \<times> real \<times> real"
  location :: "real \<times> real \<times> real"

record axis_request =
  steps :: "real \<times> real \<times> real"
  ranges :: "(real \<times> real) \<times> (real \<times> real) \<times> (cell \<times> cell)"
  dimension :: nat
  tick_labels :: "cell list \<times> cell list \<times> cell list"
  axis_padding :: real
  axis_auto_steps :: bool
  offset :: real

record scene =
  container_object :: bool
  bars :: "bar list"
  unplaced_cubes :: nat
  axes :: "axis_request option"

definition empty_scene :: scene where
  "empty_scene = \<lparr>container_object = False, bars = [], unplaced_cubes = 0, axes = None\<rparr>"

datatype outcome = FINISHED | CANCELLED string | Raised error

subsection \<open>Functions of other modules\<close>

text \<open>
  \<^verbatim>\<open>find_axis_range\<close>, \<^verbatim>\<open>find_data_range\<close> and \<^verbatim>\<open>normalize_value\<close> (data_vis.utils.data_utils)
  and the method \<^verbatim>\<open>in_axis_range_bounds_new\<close> (data_vis.general) are called by the operator
  and defined elsewhere. The operator is modelled for any such functions: each may return or
  raise. \<^verbatim>\<open>find_axis_range\<close> stands for the call together with the assignment of its result
  to a float vector property.
\<close>

record helpers =
  find_axis_range :: "row list \<Rightarrow> nat \<Rightarrow> error + (real \<times> real)"
  find_data_range :: "row list \<Rightarrow> real \<times> real \<Rightarrow> (real \<times> real) option \<Rightarrow> error + (cell \<times> cell)"
  normalize_value :: "cell \<Rightarrow> cell \<Rightarrow> cell \<Rightarrow> error + real"
  in_axis_range_bounds_new :: "OBJECT_OT_BarChart \<Rightarrow> row \<Rightarrow> error + bool"

subsection \<open>The operator's methods\<close>

text \<open>
  \<^verbatim>\<open>init_range\<close> (lines 66-68). An exception of the second call leaves the first
  assignment in place.
\<close>

definition init_range :: "helpers \<Rightarrow> OBJECT_OT_BarChart \<Rightarrow> error option \<times> OBJECT_OT_BarChart" where
  "init_range h self =
     (case find_axis_range h (data self) 0 of
        Inl e \<Rightarrow> (Some e, self)
      | Inr xr \<Rightarrow>
          (let self1 = self\<lparr>axis_settings := (axis_settings self)\<lparr>x_range := xr\<rparr>\<rparr>
           in case find_axis_range h (data self1) 1 of
                Inl e \<Rightarrow> (Some e, self1)
              | Inr yr \<Rightarrow> (None, self1\<lparr>axis_settings := (axis_settings self1)\<lparr>y_range := yr\<rparr>\<rparr>)))"

text \<open>Lines 78-84 of \<^verbatim>\<open>execute\<close>: the ranges and, for categorical data, the dimensions.\<close>

definition set_up_ranges :: "helpers \<Rightarrow> OBJECT_OT_BarChart \<Rightarrow> error option \<times> OBJECT_OT_BarChart" where
  "set_up_ranges h self =
     (if data_type self = Numerical
      then (if auto_ranges (axis_settings self) then init_range h self else (None, self))
      else (None, self\<lparr>dimensions := D2,
                       axis_settings := (axis_settings self)
                         \<lparr>x_range := (0, real_of_int (int (length (data self)) - 1))\<rparr>\<rparr>))"

text \<open>
  Line 86: \<^verbatim>\<open>self.dimensions == '3' and len(self.data[0]) != 3\<close>. The second operand is only
  evaluated for a 3D request, and raises IndexError on an empty table.
\<close>

definition data_only_2d :: "OBJECT_OT_BarChart \<Rightarrow> error + bool" where
  "data_only_2d self =
     (if dimensions self = D3
      then (case data self of [] \<Rightarrow> Inl IndexError | r # rs \<Rightarrow> Inr (length r \<noteq> 3))
      else Inr False)"

text \<open>
  Lines 91-99: the range of the value axis. For numerical data every exception of
  \<^verbatim>\<open>find_data_range\<close> is caught and reported; for categorical data \<^verbatim>\<open>min\<close> and \<^verbatim>\<open>max\<close>
  raise as they do.
\<close>

definition value_range :: "helpers \<Rightarrow> OBJECT_OT_BarChart \<Rightarrow> outcome + (cell \<times> cell)" where
  "value_range h self =
     (if data_type self = Numerical
      then (case find_data_range h (data self) (x_range (axis_settings self))
                   (if dimensions self = D3 then Some (y_range (axis_settings self)) else None) of
              Inl e \<Rightarrow> Inl (CANCELLED ''Cannot find data in this range!'')
            | Inr r \<Rightarrow> Inr r)
      else (case min_value (data self) of
              Inl e \<Rightarrow> Inl (Raised e)
            | Inr data_min \<Rightarrow>
                (case max_value (data self) of
                   Inl e \<Rightarrow> Inl (Raised e)
                 | Inr data_max \<Rightarrow> Inr (data_min, data_max))))"

text \<open>
  Lines 115-131, the body of the loop after the cube is made: the tick label appended for
  this row (none for numerical data) and the bar.
\<close>

definition place_entry ::
  "helpers \<Rightarrow> OBJECT_OT_BarChart \<Rightarrow> cell \<times> cell \<Rightarrow> nat \<Rightarrow> nat \<Rightarrow> row \<Rightarrow> error + (cell list \<times> bar)" where
  "place_entry h self data_range value_index i entry =
     (case item entry 0 of
        Inl e \<Rightarrow> Inl e
      | Inr first \<Rightarrow>
     (let x_value = (if data_type self = Numerical then first else Num (real i));
          new_labels = (if data_type self = Numerical then [] else [first])
      in case normalize_value h x_value (Num (fst (x_range (axis_settings self))))
                (Num (snd (x_range (axis_settings self)))) of
        Inl e \<Rightarrow> Inl e
      | Inr x_norm \<Rightarrow>
     (case item entry value_index of
        Inl e \<Rightarrow> Inl e
      | Inr v \<Rightarrow>
     (case normalize_value h v (fst data_range) (snd data_range) of
        Inl e \<Rightarrow> Inl e
      | Inr z \<Rightarrow>
     (let z_norm = (if z \<ge> 0.0 \<and> z \<le> 0.0001 then 0.0001 else z)
      in if dimensions self = D2
         then Inr (new_labels,
                   \<lparr>scale = (fst (bar_size self), snd (bar_size self), z_norm * 0.5),
                    location = (x_norm, 0.0, z_norm * 0.5)\<rparr>)
         else (case item entry 1 of
                 Inl e \<Rightarrow> Inl e
               | Inr y \<Rightarrow>
              (case normalize_value h y (Num (fst (y_range (axis_settings self))))
                      (Num (snd (y_range (axis_settings self)))) of
                 Inl e \<Rightarrow> Inl e
               | Inr y_norm \<Rightarrow>
                   Inr (new_labels,
                        \<lparr>scale = (fst (bar_size self), snd (bar_size self), z_norm * 0.5),
                         location = (x_norm, y_norm, z_norm * 0.5)\<rparr>))))))))"

text \<open>
  Lines 109-135, the loop over \<^verbatim>\<open>enumerate(self.data)\<close>: the scene and the tick labels so
  far are threaded through; an exception ends the loop.
\<close>

fun place_all ::
  "helpers \<Rightarrow> OBJECT_OT_BarChart \<Rightarrow> cell \<times> cell \<Rightarrow> nat \<Rightarrow> (nat \<times> row) list \<Rightarrow> scene \<Rightarrow> cell list
     \<Rightarrow> error option \<times> scene \<times> cell list" where
  "place_all h self data_range value_index [] sc labels = (None, sc, labels)"
| "place_all h self data_range value_index ((i, entry) # rest) sc labels =
     (case in_axis_range_bounds_new h self entry of
        Inl e \<Rightarrow> (Some e, sc, labels)
      | Inr inside \<Rightarrow>
          (if \<not> inside then place_all h self data_range value_index rest sc labels
           else (case place_entry h self data_range value_index i entry of
                   Inl e \<Rightarrow> (Some e, sc\<lparr>unplaced_cubes := Suc (unplaced_cubes sc)\<rparr>, labels)
                 | Inr (new_labels, b) \<Rightarrow>
                     place_all h self data_range value_index rest
                       (sc\<lparr>bars := bars sc @ [b]\<rparr>) (labels @ new_labels))))"

text \<open>
  \<^verbatim>\<open>execute\<close> (lines 76-149): the outcome, the operator with the properties the run has
  set, and the scene the run has made.
\<close>

definition execute :: "helpers \<Rightarrow> OBJECT_OT_BarChart \<Rightarrow> outcome \<times> OBJECT_OT_BarChart \<times> scene" where
  "execute h self0 =
     (case set_up_ranges h self0 of
        (Some e, self) \<Rightarrow> (Raised e, self, empty_scene)
      | (None, self) \<Rightarrow>
     (case data_only_2d self of
        Inl e \<Rightarrow> (Raised e, self, empty_scene)
      | Inr True \<Rightarrow> (CANCELLED ''Data are only 2D!'', self, empty_scene)
      | Inr False \<Rightarrow>
     (let sc = empty_scene\<lparr>container_object := True\<rparr>
      in case value_range h self of
        Inl out \<Rightarrow> (out, self, sc)
      | Inr data_range \<Rightarrow>
     (let value_index = (if dimensions self = D2 then 1 else 2)
      in case place_all h self data_range value_index (enumerate 0 (data self)) sc [] of
        (Some e, sc', labels) \<Rightarrow> (Raised e, self, sc')
      | (None, sc', labels) \<Rightarrow>
          (FINISHED, self,
           sc'\<lparr>axes := Some
             \<lparr>steps = (x_step (axis_settings self), y_step (axis_settings self),
                       z_step (axis_settings self)),
              ranges = (x_range (axis_settings self), y_range (axis_settings self), data_range),
              dimension = (if dimensions self = D3 then 3 else 2),
              tick_labels = (labels, [], []),
              axis_padding = padding (axis_settings self),
              axis_auto_steps = auto_steps (axis_settings self),
              offset = 0.0\<rparr>\<rparr>)))))"

subsection \<open>The helpers as the specification describes them\<close>

text \<open>
  Modelled from the spec: \<^verbatim>\<open>normalize_value\<close> of data_vis.utils.data_utils is not among the
  sources. Section 4.3: the linear map \<^verbatim>\<open>(value-min)/(max-min)\<close>, with no guard of its own
  against a span of zero. Python's division raises ZeroDivisionError there, and arithmetic
  on a string raises TypeError.
\<close>

fun normalize_value_spec :: "cell \<Rightarrow> cell \<Rightarrow> cell \<Rightarrow> error + real" where
  "normalize_value_spec (Num v) (Num lo) (Num hi) =
     (if hi - lo = 0 then Inl ZeroDivisionError else Inr ((v - lo) / (hi - lo)))"
| "normalize_value_spec v lo hi = Inl TypeError"

text \<open>A field read as a number.\<close>

fun number :: "error + cell \<Rightarrow> error + real" where
  "number (Inl e) = Inl e"
| "number (Inr (Num v)) = Inr v"
| "number (Inr (Cat s)) = Inl TypeError"

text \<open>
  Modelled from the spec: \<^verbatim>\<open>in_axis_range_bounds_new\<close> of data_vis.general is not among the
  sources. Section 4.2 and the glossary: the bounds filter drops a row whose value falls
  outside the axis range in use, X always and Y only for a 3D chart (section 4.5); the X
  value of a categorical row is its index, which lies in the range \<^verbatim>\<open>[0, n-1]\<close> set for it.
\<close>

definition in_axis_range_bounds_new_spec :: "OBJECT_OT_BarChart \<Rightarrow> row \<Rightarrow> error + bool" where
  "in_axis_range_bounds_new_spec self entry =
     (if data_type self = Categorical then Inr True
      else (case number (item entry 0) of
              Inl e \<Rightarrow> Inl e
            | Inr x \<Rightarrow>
                (if x < fst (x_range (axis_settings self)) \<or> x > snd (x_range (axis_settings self))
                 then Inr False
                 else if dimensions self = D3
                 then (case number (item entry 1) of
                         Inl e \<Rightarrow> Inl e
                       | Inr y \<Rightarrow>
                           Inr (\<not> (y < fst (y_range (axis_settings self))
                                  \<or> y > snd (y_range (axis_settings self)))))
                 else Inr True)))"

text \<open>
  Modelled from the spec: the range resolver of section 4.2 behind \<^verbatim>\<open>find_axis_range\<close> and
  \<^verbatim>\<open>find_data_range\<close> (data_vis.utils.data_utils, not among the sources). It scans one
  column across all rows, fails with EmptyDataError for a table with zero rows, and widens a
  range whose ends are equal by half a unit on each side.
\<close>

definition resolve :: "real list \<Rightarrow> error + (real \<times> real)" where
  "resolve vs =
     (if vs = [] then Inl EmptyDataError
      else if Min (set vs) = Max (set vs) then Inr (Min (set vs) - 0.5, Max (set vs) + 0.5)
      else Inr (Min (set vs), Max (set vs)))"

fun column_values :: "nat \<Rightarrow> row list \<Rightarrow> error + real list" where
  "column_values k [] = Inr []"
| "column_values k (r # rs) =
     (case number (item r k) of
        Inl e \<Rightarrow> Inl e
      | Inr v \<Rightarrow> (case column_values k rs of Inl e \<Rightarrow> Inl e | Inr vs \<Rightarrow> Inr (v # vs)))"

definition find_axis_range_spec :: "row list \<Rightarrow> nat \<Rightarrow> error + (real \<times> real)" where
  "find_axis_range_spec rows k =
     (case column_values k rows of Inl e \<Rightarrow> Inl e | Inr vs \<Rightarrow> resolve vs)"

text \<open>
  Modelled from the spec: \<^verbatim>\<open>find_data_range(data, range_x, range_y)\<close> of
  data_vis.utils.data_utils is not among the sources. Section 4.5, step 2, calls the range
  resolver for the value axis, and section 4.2 has it scan the column across all rows of the
  table when no explicit range is given for that axis: it fails with EmptyDataError for a
  table with zero rows and widens a range whose ends are equal. The value column is the last
  of two or three; the X and Y ranges handed over play no part in the resolver of the
  specification.
\<close>

definition find_data_range_spec ::
  "row list \<Rightarrow> real \<times> real \<Rightarrow> (real \<times> real) option \<Rightarrow> error + (cell \<times> cell)" where
  "find_data_range_spec rows xr yr =
     (case column_values (if yr = None then 1 else 2) rows of
        Inl e \<Rightarrow> Inl e
      | Inr vs \<Rightarrow>
     (case resolve vs of
        Inl e \<Rightarrow> Inl e
      | Inr (lo, hi) \<Rightarrow> Inr (Num lo, Num hi)))"

definition spec_helpers :: helpers where
  "spec_helpers =
     \<lparr>find_axis_range = find_axis_range_spec,
      find_data_range = find_data_range_spec,
      normalize_value = normalize_value_spec,
      in_axis_range_bounds_new = in_axis_range_bounds_new_spec\<rparr>"

section \<open>The categorical axis modifier (geonodes/components.py)\<close>







subsection \<open>Rows the loop keeps\<close>

text \<open>
  The pairs of \<^verbatim>\<open>enumerate(self.data)\<close> for which \<^verbatim>\<open>in_axis_range_bounds_new\<close> returns
  true, in the order of the table: the rows the loop does not skip.
\<close>

definition retained :: "helpers \<Rightarrow> OBJECT_OT_BarChart \<Rightarrow> (nat \<times> row) list \<Rightarrow> (nat \<times> row) list" where
  "retained h self rows = filter (\<lambda>(i, entry). in_axis_range_bounds_new h self entry = Inr True) rows"

text \<open>
  The claim's own words, for a row of numbers: the row lies inside the ranges in use, its X
  value in the X range and, for a 3D chart, its Y value in the Y range.
\<close>

definition inside_ranges :: "OBJECT_OT_BarChart \<Rightarrow> real list \<Rightarrow> bool" where
  "inside_ranges self r =
     (fst (x_range (axis_settings self)) \<le> r ! 0 \<and> r ! 0 \<le> snd (x_range (axis_settings self)) \<and>
      (dimensions self = D2 \<or>
       fst (y_range (axis_settings self)) \<le> r ! 1 \<and> r ! 1 \<le> snd (y_range (axis_settings self))))"

section \<open>Example charts\<close>

text \<open>
  A numerical table with X = 1, 3, 5, 9 and the explicit range [2, 8]; the same table with
  automatic ranges; a table with zero rows; a table with no row in the range; three
  categories with a 3D request.
\<close>

definition example_axis :: DV_AxisPropertyGroup where
  "example_axis =
     \<lparr>x_range = (2, 8), y_range = (0, 1), auto_ranges = False,
      x_step = 1, y_step = 1, z_step = 1, padding = 0, auto_steps = True\<rparr>"

definition example_numerical :: OBJECT_OT_BarChart where
  "example_numerical =
     \<lparr>dimensions = D2, data_type = Numerical, bar_size = (0.05, 0.05),
      axis_settings = example_axis,
      data = [[Num 1, Num 10], [Num 3, Num 20], [Num 5, Num 30], [Num 9, Num 40]]\<rparr>"

definition example_auto :: OBJECT_OT_BarChart where
  "example_auto = example_numerical\<lparr>axis_settings := example_axis\<lparr>auto_ranges := True\<rparr>\<rparr>"

definition example_empty :: OBJECT_OT_BarChart where
  "example_empty = example_numerical\<lparr>data := []\<rparr>"

definition example_all_outside :: OBJECT_OT_BarChart where
  "example_all_outside = example_numerical\<lparr>data := [[Num 1, Num 10], [Num 9, Num 40]]\<rparr>"

definition example_categorical :: OBJECT_OT_BarChart where
  "example_categorical =
     \<lparr>dimensions = D3, data_type = Categorical, bar_size = (0.05, 0.05),
      axis_settings = example_axis,
      data = [[Cat ''A'', Num 1], [Cat ''B'', Num 0], [Cat ''C'', Num 3]]\<rparr>"

section \<open>Properties of the duplicate suffix\<close>

lemma digits_then_end_dot:
  "\<not> digit dot \<Longrightarrow> dot \<in> set cs \<Longrightarrow> digits_then_end digit cs = None"
proof (induction cs)
  case Nil
  then show ?case by simp
next
  case (Cons c cs)
  show ?case
  proof (cases "c = dot")
    case True
    with Cons.prems show ?thesis by simp
  next
    case False
    with Cons have "digits_then_end digit cs = None" "\<not> at_end cs"
      by (auto simp: at_end_def newline_def dot_def)
    then show ?thesis by simp
  qed
qed

lemma digits_then_end_match:
  "\<not> digit newline \<Longrightarrow> ds \<noteq> [] \<Longrightarrow> list_all digit ds \<Longrightarrow> at_end r \<Longrightarrow> digits_then_end digit (ds @ r) = Some r"
proof (induction ds)
  case Nil
  then show ?case by simp
next
  case (Cons d ds)
  show ?case
  proof (cases "ds = []")
    case True
    with Cons.prems show ?thesis
      by (auto simp: at_end_def)
  next
    case False
    with Cons show ?thesis by simp
  qed
qed

lemma digits_then_end_form:
  "digits_then_end digit cs = Some r \<Longrightarrow> \<exists>ds. ds \<noteq> [] \<and> list_all digit ds \<and> cs = ds @ r \<and> at_end r"
proof (induction cs)
  case Nil
  then show ?case by simp
next
  case (Cons c cs)
  show ?case
  proof (cases "digits_then_end digit cs")
    case None
    with Cons.prems have "digit c" "at_end cs" "r = cs"
      by (auto split: if_splits)
    then show ?thesis
      by (intro exI [of _ "[c]"]) simp
  next
    case (Some t)
    with Cons.prems have c: "digit c" and "t = r"
      by (auto split: if_splits)
    with Some Cons.IH obtain ds where "ds \<noteq> []" "list_all digit ds" "cs = ds @ r" "at_end r"
      by auto
    with c show ?thesis
      by (intro exI [of _ "c # ds"]) simp
  qed
qed

lemma sub_empty_at_end: "at_end r \<Longrightarrow> sub_empty digit r = r"
  by (auto simp: at_end_def match_here_def newline_def dot_def)

lemma sub_empty_match:
  assumes "\<not> digit dot" and "\<not> digit newline"
    and "ds \<noteq> []" and "list_all digit ds" and "at_end r"
  shows "sub_empty digit (base @ dot # ds @ r) = base @ r"
proof (induction base)
  case Nil
  from assms show ?case
    by (simp add: match_here_def digits_then_end_match sub_empty_at_end)
next
  case (Cons c base)
  have "match_here digit (c # base @ dot # ds @ r) = None"
    using assms(1) by (simp add: match_here_def digits_then_end_dot)
  with Cons show ?case by simp
qed

lemma sub_empty_cases:
  "sub_empty digit s = s \<or>
   (\<exists>base ds r. ds \<noteq> [] \<and> list_all digit ds \<and> at_end r \<and> s = base @ dot # ds @ r)"
proof (induction s)
  case Nil
  then show ?case by simp
next
  case (Cons c cs)
  show ?case
  proof (cases "match_here digit (c # cs)")
    case None
    from Cons.IH show ?thesis
    proof
      assume "sub_empty digit cs = cs"
      with None show ?thesis by simp
    next
      assume "\<exists>base ds r. ds \<noteq> [] \<and> list_all digit ds \<and> at_end r \<and> cs = base @ dot # ds @ r"
      then obtain base ds r where "ds \<noteq> []" "list_all digit ds" "at_end r" "cs = base @ dot # ds @ r"
        by blast
      then have "ds \<noteq> [] \<and> list_all digit ds \<and> at_end r \<and> c # cs = (c # base) @ dot # ds @ r"
        by simp
      then show ?thesis by blast
    qed
  next
    case (Some r)
    then have c: "c = dot" and "digits_then_end digit cs = Some r"
      by (auto simp: match_here_def split: if_splits)
    then obtain ds where "ds \<noteq> []" "list_all digit ds" "cs = ds @ r" "at_end r"
      using digits_then_end_form by blast
    with c have "ds \<noteq> [] \<and> list_all digit ds \<and> at_end r \<and> c # cs = [] @ dot # ds @ r"
      by simp
    then show ?thesis by blast
  qed
qed

lemma strip_form:
  "\<not> digit dot \<Longrightarrow> ds \<noteq> [] \<Longrightarrow> list_all digit ds \<Longrightarrow> strip_trailing_suffix digit (base @ dot # ds) = base"
proof -
  assume nd: "\<not> digit dot"
  assume ds: "ds \<noteq> []" "list_all digit ds"
  have r: "rev (base @ dot # ds) = rev ds @ dot # rev base"
    by simp
  from ds have all: "x \<in> set (rev ds) \<Longrightarrow> digit x" for x
    by (simp add: list_all_iff)
  have t: "takeWhile digit (rev ds @ dot # rev base) = rev ds"
    by (subst takeWhile_append2) (use all nd in auto)
  have d: "dropWhile digit (rev ds @ dot # rev base) = dot # rev base"
    by (subst dropWhile_append2) (use all nd in auto)
  show ?thesis
    unfolding strip_trailing_suffix_def r t d using ds by simp
qed

lemma strip_cases:
  "strip_trailing_suffix digit s = s \<or>
   (\<exists>ds. ds \<noteq> [] \<and> list_all digit ds \<and> s = strip_trailing_suffix digit s @ dot # ds)"
proof (cases "takeWhile digit (rev s) \<noteq> [] \<and> dropWhile digit (rev s) \<noteq> [] \<and> hd (dropWhile digit (rev s)) = dot")
  case False
  then show ?thesis
    by (auto simp: strip_trailing_suffix_def Let_def)
next
  case True
  define ds where "ds = rev (takeWhile digit (rev s))"
  define rest where "rest = dropWhile digit (rev s)"
  from True have st: "strip_trailing_suffix digit s = rev (tl rest)"
    by (simp add: strip_trailing_suffix_def Let_def rest_def)
  from True have rest: "rest = dot # tl rest"
    by (cases rest) (auto simp: rest_def)
  have "rev s = rev ds @ rest"
    by (simp add: ds_def rest_def)
  then have "s = rev rest @ ds"
    by (metis rev_append rev_rev_ident)
  with rest have "s = rev (tl rest) @ dot # ds"
    by (metis append.assoc append_Cons append_Nil rev.simps(2))
  moreover have "ds \<noteq> []" using True by (simp add: ds_def)
  moreover have "list_all digit ds"
    by (simp add: ds_def list_all_iff) (meson set_takeWhileD)
  ultimately show ?thesis using st by auto
qed

lemma remove_duplicate_suffix_trailing:
  assumes nd: "\<not> digit dot" and nn: "\<not> digit newline"
  shows "remove_duplicate_suffix digit name =
     (if name \<noteq> [] \<and> last name = newline
      then strip_trailing_suffix digit (butlast name) @ [newline]
      else strip_trailing_suffix digit name)"
proof (cases "\<exists>base ds r. ds \<noteq> [] \<and> list_all digit ds \<and> at_end r \<and> name = base @ dot # ds @ r")
  case True
  then obtain base ds r where ds: "ds \<noteq> []" "list_all digit ds" and r: "at_end r"
    and name: "name = base @ dot # ds @ r"
    by blast
  have sub: "remove_duplicate_suffix digit name = base @ r"
    by (simp add: remove_duplicate_suffix_def name sub_empty_match [of digit, OF nd nn] ds r)
  from r show ?thesis
    unfolding at_end_def
  proof
    assume "r = []"
    moreover from ds have "digit (last ds)"
      by (simp add: list_all_iff)
    then have "last ds \<noteq> newline"
      using nn by auto
    ultimately show ?thesis
      using sub ds by (simp add: name strip_form [of digit, OF nd])
  next
    assume "r = [newline]"
    moreover have "butlast (base @ dot # ds @ [newline]) = base @ dot # ds"
      by (simp add: butlast_append)
    ultimately show ?thesis
      using sub ds by (simp add: name strip_form [of digit, OF nd])
  qed
next
  case False
  then have sub: "remove_duplicate_suffix digit name = name"
    using sub_empty_cases [of digit name] by (auto simp: remove_duplicate_suffix_def)
  show ?thesis
  proof (cases "name \<noteq> [] \<and> last name = newline")
    case True
    then have name: "name = butlast name @ [newline]"
      by (metis append_butlast_last_id)
    have "strip_trailing_suffix digit (butlast name) = butlast name"
    proof (rule ccontr)
      assume "strip_trailing_suffix digit (butlast name) \<noteq> butlast name"
      then obtain ds where "ds \<noteq> []" "list_all digit ds"
        "butlast name = strip_trailing_suffix digit (butlast name) @ dot # ds"
        using strip_cases [of digit "butlast name"] by blast
      with name have "ds \<noteq> [] \<and> list_all digit ds \<and> at_end [newline] \<and>
          name = strip_trailing_suffix digit (butlast name) @ dot # ds @ [newline]"
        by (simp add: at_end_def) (metis append.assoc append_Cons)
      with False show False by blast
    qed
    with True sub name show ?thesis by simp
  next
    case nl: False
    have "strip_trailing_suffix digit name = name"
    proof (rule ccontr)
      assume "strip_trailing_suffix digit name \<noteq> name"
      then obtain ds where "ds \<noteq> []" "list_all digit ds"
        "name = strip_trailing_suffix digit name @ dot # ds"
        using strip_cases [of digit name] by blast
      then have "ds \<noteq> [] \<and> list_all digit ds \<and> at_end [] \<and>
          name = strip_trailing_suffix digit name @ dot # ds @ []"
        by (simp add: at_end_def)
      with False show False by blast
    qed
    with nl sub show ?thesis by auto
  qed
qed

text \<open>
  C10, at the name \<^verbatim>\<open>a.1\<close> followed by a newline. The name does not end in a dot and
  digits (its last character is the newline), so it should come back unchanged, as
  \<^const>\<open>strip_trailing_suffix\<close> returns it. The pattern's \<^verbatim>\<open>$\<close> also matches just before a
  final newline, and \<^const>\<open>remove_duplicate_suffix\<close> removes \<^verbatim>\<open>.1\<close> from the interior of the
  name. This holds for every table of digits that has the character 1 and not the newline.
\<close>

theorem remove_duplicate_suffix_before_newline:
  assumes "digit (of_char CHR ''1'')" and "\<not> digit newline"
  shows "remove_duplicate_suffix digit (str ''a.1\<newline>'') = str ''a\<newline>'' \<and>
     strip_trailing_suffix digit (str ''a.1\<newline>'') = str ''a.1\<newline>''"
  using assms
  by (simp add: remove_duplicate_suffix_def strip_trailing_suffix_def str_def match_here_def
      at_end_def dot_def newline_def)

theorem remove_duplicate_suffix_before_newline_witness:
  "ascii_digit (of_char CHR ''1'') \<and> \<not> ascii_digit newline \<and>
   remove_duplicate_suffix ascii_digit (str ''a.1\<newline>'') = str ''a\<newline>'' \<and>
   strip_trailing_suffix ascii_digit (str ''a.1\<newline>'') = str ''a.1\<newline>''"
proof -
  have 1: "ascii_digit (of_char CHR ''1'')" and 2: "\<not> ascii_digit newline"
    by (simp_all add: ascii_digit_def newline_def)
  from remove_duplicate_suffix_before_newline [OF 1 2] 1 2 show ?thesis
    by simp
qed

section \<open>Properties of the bar chart operator\<close>

subsection \<open>The loop and the run as a whole\<close>

lemma place_all_finished:
  "place_all h self rng vi rows sc labels = (None, sc', labels') \<Longrightarrow>
   \<exists>results.
     list_all2 (\<lambda>(i, entry) res. place_entry h self rng vi i entry = Inr res)
       (retained h self rows) results \<and>
     bars sc' = bars sc @ map snd results \<and>
     labels' = labels @ concat (map fst results) \<and>
     container_object sc' = container_object sc \<and>
     unplaced_cubes sc' = unplaced_cubes sc \<and>
     axes sc' = axes sc"
proof (induction h self rng vi rows sc labels rule: place_all.induct)
  case (1 h self rng vi sc labels)
  then show ?case
    by (simp add: retained_def)
next
  case (2 h self rng vi i entry rest sc labels)
  from "2.prems" obtain inside where ins: "in_axis_range_bounds_new h self entry = Inr inside"
    by (cases "in_axis_range_bounds_new h self entry") auto
  show ?case
  proof (cases inside)
    case False
    with ins "2.prems" have "place_all h self rng vi rest sc labels = (None, sc', labels')"
      by simp
    from "2.IH"(1) [OF ins _ this] False ins show ?thesis
      by (simp add: retained_def)
  next
    case True
    with ins "2.prems" obtain l b where pe: "place_entry h self rng vi i entry = Inr (l, b)"
      by (cases "place_entry h self rng vi i entry") auto
    with ins True "2.prems"
    have rec: "place_all h self rng vi rest (sc\<lparr>bars := bars sc @ [b]\<rparr>) (labels @ l) = (None, sc', labels')"
      by simp
    from "2.IH"(2) [OF ins _ pe _ rec] True
    obtain results where r: "list_all2 (\<lambda>(i, entry) res. place_entry h self rng vi i entry = Inr res)
         (retained h self rest) results"
      "bars sc' = (bars sc @ [b]) @ map snd results"
      "labels' = (labels @ l) @ concat (map fst results)"
      "container_object sc' = container_object sc"
      "unplaced_cubes sc' = unplaced_cubes sc"
      "axes sc' = axes sc"
      by auto
    have "list_all2 (\<lambda>(i, entry) res. place_entry h self rng vi i entry = Inr res)
         (retained h self ((i, entry) # rest)) ((l, b) # results)"
      using r(1) pe ins True by (simp add: retained_def)
    with r(2-) show ?thesis
      by (intro exI [of _ "(l, b) # results"]) simp
  qed
qed



lemma init_range_frame:
  "init_range h self0 = (r, self) \<Longrightarrow>
   data self = data self0 \<and> data_type self = data_type self0 \<and> dimensions self = dimensions self0 \<and>
   bar_size self = bar_size self0"
  by (auto simp: init_range_def Let_def split: sum.splits)

lemma set_up_ranges_frame:
  "set_up_ranges h self0 = (r, self) \<Longrightarrow>
   data self = data self0 \<and> data_type self = data_type self0 \<and> bar_size self = bar_size self0"
  by (auto simp: set_up_ranges_def split: if_splits dest: init_range_frame)

lemma set_up_ranges_numerical:
  "set_up_ranges h self0 = (r, self) \<Longrightarrow> data_type self0 = Numerical \<Longrightarrow>
   dimensions self = dimensions self0"
  by (auto simp: set_up_ranges_def split: if_splits dest: init_range_frame)

lemma set_up_ranges_categorical:
  "data_type self0 \<noteq> Numerical \<Longrightarrow>
   set_up_ranges h self0 =
     (None, self0\<lparr>dimensions := D2,
                  axis_settings := (axis_settings self0)
                    \<lparr>x_range := (0, real_of_int (int (length (data self0)) - 1))\<rparr>\<rparr>)"
  by (simp add: set_up_ranges_def)

lemma init_range_again: "init_range h self0 = (r, self) \<Longrightarrow> init_range h self = (r, self)"
  by (auto simp: init_range_def Let_def split: sum.splits)

lemma set_up_ranges_again:
  "set_up_ranges h self0 = (r, self) \<Longrightarrow> set_up_ranges h self = (r, self)"
proof (cases "data_type self0 = Numerical")
  case True
  assume s: "set_up_ranges h self0 = (r, self)"
  show ?thesis
  proof (cases "auto_ranges (axis_settings self0)")
    case False
    with True s show ?thesis by (simp add: set_up_ranges_def)
  next
    case auto: True
    with True s have i: "init_range h self0 = (r, self)"
      by (simp add: set_up_ranges_def)
    then have "auto_ranges (axis_settings self)" "data_type self = Numerical"
      using auto True by (auto simp: init_range_def Let_def split: sum.splits)
    with init_range_again [OF i] show ?thesis
      by (simp add: set_up_ranges_def)
  qed
next
  case False
  assume s: "set_up_ranges h self0 = (r, self)"
  with False show ?thesis
    by (auto simp: set_up_ranges_def)
qed

lemma execute_after_set_up:
  "set_up_ranges h self0 = set_up_ranges h self1 \<Longrightarrow> execute h self0 = execute h self1"
  by (simp add: execute_def)

lemma execute_operator:
  "set_up_ranges h self0 = (r, self) \<Longrightarrow> fst (snd (execute h self0)) = self"
proof (cases r)
  case (Some e)
  assume "set_up_ranges h self0 = (r, self)"
  with Some show ?thesis
    by (simp add: execute_def)
next
  case None
  assume su: "set_up_ranges h self0 = (r, self)"
  show ?thesis
  proof (cases "data_only_2d self")
    case (Inl e)
    with su None show ?thesis
      by (simp add: execute_def)
  next
    case two: (Inr b)
    show ?thesis
    proof (cases b)
      case True
      with su None two show ?thesis
        by (simp add: execute_def)
    next
      case False
      show ?thesis
      proof (cases "value_range h self")
        case (Inl out)
        with su None two False show ?thesis
          by (simp add: execute_def)
      next
        case (Inr rng)
        obtain err sc' labels where
          "place_all h self rng (if dimensions self = D2 then 1 else 2) (enumerate 0 (data self))
             (empty_scene\<lparr>container_object := True\<rparr>) [] = (err, sc', labels)"
          by (metis prod_cases3)
        with su None two False Inr show ?thesis
          by (cases err) (simp_all add: execute_def)
      qed
    qed
  qed
qed

lemma execute_finished:
  assumes "execute h self0 = (FINISHED, self, sc)"
  shows "\<exists>data_range results.
     set_up_ranges h self0 = (None, self) \<and>
     data_only_2d self = Inr False \<and>
     value_range h self = Inr data_range \<and>
     list_all2 (\<lambda>(i, entry) res.
         place_entry h self data_range (if dimensions self = D2 then 1 else 2) i entry = Inr res)
       (retained h self (enumerate 0 (data self))) results \<and>
     bars sc = map snd results \<and>
     container_object sc \<and>
     unplaced_cubes sc = 0 \<and>
     axes sc = Some
       \<lparr>steps = (x_step (axis_settings self), y_step (axis_settings self), z_step (axis_settings self)),
        ranges = (x_range (axis_settings self), y_range (axis_settings self), data_range),
        dimension = (if dimensions self = D3 then 3 else 2),
        tick_labels = (concat (map fst results), [], []),
        axis_padding = padding (axis_settings self),
        axis_auto_steps = auto_steps (axis_settings self),
        offset = 0\<rparr>"
proof -
  obtain r self' where su: "set_up_ranges h self0 = (r, self')"
    by (cases "set_up_ranges h self0")
  with assms have r: "r = None"
    by (cases r) (auto simp: execute_def)
  from assms su r obtain two where two: "data_only_2d self' = Inr two"
    by (cases "data_only_2d self'") (auto simp: execute_def)
  with assms su r have two_f: "\<not> two"
    by (cases two) (auto simp: execute_def)
  from assms su r two two_f obtain data_range where vr: "value_range h self' = Inr data_range"
    by (cases "value_range h self'") (auto simp: execute_def value_range_def split: if_splits sum.splits)
  define vi :: nat where "vi = (if dimensions self' = D2 then 1 else 2)"
  obtain err sc' labels where pa:
    "place_all h self' data_range vi (enumerate 0 (data self'))
       (empty_scene\<lparr>container_object := True\<rparr>) [] = (err, sc', labels)"
    by (metis prod_cases3)
  from assms su r two two_f vr pa have err: "err = None"
    by (cases err) (auto simp: execute_def vi_def Let_def)
  from assms su r two two_f vr pa err have self: "self = self'"
    and sc: "sc = sc'\<lparr>axes := Some
             \<lparr>steps = (x_step (axis_settings self'), y_step (axis_settings self'),
                       z_step (axis_settings self')),
              ranges = (x_range (axis_settings self'), y_range (axis_settings self'), data_range),
              dimension = (if dimensions self' = D3 then 3 else 2),
              tick_labels = (labels, [], []),
              axis_padding = padding (axis_settings self'),
              axis_auto_steps = auto_steps (axis_settings self'),
              offset = 0.0\<rparr>\<rparr>"
    by (auto simp: execute_def vi_def Let_def)
  from place_all_finished [OF pa [unfolded err]]
  obtain results where res:
    "list_all2 (\<lambda>(i, entry) res. place_entry h self' data_range vi i entry = Inr res)
       (retained h self' (enumerate 0 (data self'))) results"
    "bars sc' = map snd results" "labels = concat (map fst results)"
    "container_object sc'" "unplaced_cubes sc' = 0"
    by (auto simp: empty_scene_def)
  show ?thesis
    using su r two two_f vr res unfolding self sc vi_def
    by (intro exI [of _ data_range] exI [of _ results]) simp
qed

lemma place_entry_result:
  assumes "place_entry h self data_range vi i entry = Inr (l, b)"
  shows "\<exists>first x v z.
     item entry 0 = Inr first \<and>
     normalize_value h (if data_type self = Numerical then first else Num (real i))
       (Num (fst (x_range (axis_settings self)))) (Num (snd (x_range (axis_settings self)))) = Inr x \<and>
     item entry vi = Inr v \<and>
     normalize_value h v (fst data_range) (snd data_range) = Inr z \<and>
     l = (if data_type self = Numerical then [] else [first]) \<and>
     scale b = (fst (bar_size self), snd (bar_size self),
                (if 0 \<le> z \<and> z \<le> 0.0001 then 0.0001 else z) * 0.5) \<and>
     fst (location b) = x \<and>
     snd (snd (location b)) = (if 0 \<le> z \<and> z \<le> 0.0001 then 0.0001 else z) * 0.5 \<and>
     (if dimensions self = D2 then fst (snd (location b)) = 0
      else \<exists>y y_norm.
             item entry 1 = Inr y \<and>
             normalize_value h y (Num (fst (y_range (axis_settings self))))
               (Num (snd (y_range (axis_settings self)))) = Inr y_norm \<and>
             fst (snd (location b)) = y_norm)"
proof -
  from assms obtain first where f: "item entry 0 = Inr first"
    by (cases "item entry 0") (auto simp: place_entry_def)
  define xv where "xv = (if data_type self = Numerical then first else Num (real i))"
  from assms f obtain x where x:
    "normalize_value h xv (Num (fst (x_range (axis_settings self))))
       (Num (snd (x_range (axis_settings self)))) = Inr x"
    by (cases "normalize_value h xv (Num (fst (x_range (axis_settings self))))
       (Num (snd (x_range (axis_settings self))))") (auto simp: place_entry_def xv_def Let_def)
  from assms f x obtain v where v: "item entry vi = Inr v"
    by (cases "item entry vi") (auto simp: place_entry_def xv_def Let_def)
  from assms f x v obtain z where z: "normalize_value h v (fst data_range) (snd data_range) = Inr z"
    by (cases "normalize_value h v (fst data_range) (snd data_range)")
      (auto simp: place_entry_def xv_def Let_def)
  show ?thesis
  proof (cases "dimensions self = D2")
    case True
    with assms f x v z show ?thesis
      unfolding xv_def by (auto simp: place_entry_def Let_def)
  next
    case False
    with assms f x v z obtain y where y: "item entry 1 = Inr y"
      by (cases "item entry 1") (auto simp: place_entry_def xv_def Let_def)
    with False assms f x v z obtain y_norm where yn:
      "normalize_value h y (Num (fst (y_range (axis_settings self))))
               (Num (snd (y_range (axis_settings self)))) = Inr y_norm"
      by (cases "normalize_value h y (Num (fst (y_range (axis_settings self))))
               (Num (snd (y_range (axis_settings self))))") (auto simp: place_entry_def xv_def Let_def)
    with False y assms f x v z show ?thesis
      unfolding xv_def by (auto simp: place_entry_def Let_def)
  qed
qed


lemma list_all2_in_right:
  "list_all2 P xs ys \<Longrightarrow> y \<in> set ys \<Longrightarrow> \<exists>x \<in> set xs. P x y"
  by (metis in_set_conv_nth list_all2_conv_all_nth)

subsection \<open>The example runs\<close>

lemmas run_simps = execute_def spec_helpers_def set_up_ranges_def init_range_def data_only_2d_def
  value_range_def find_data_range_spec_def find_axis_range_spec_def item_def resolve_def
  empty_scene_def enumerate_eq_zip place_entry_def in_axis_range_bounds_new_spec_def
  min_value_def max_value_def Let_def example_axis_def example_numerical_def

lemma run_example_auto:
  "execute spec_helpers example_auto =
     (FINISHED,
      example_auto\<lparr>axis_settings := example_axis\<lparr>auto_ranges := True, x_range := (1, 9), y_range := (10, 40)\<rparr>\<rparr>,
      \<lparr>container_object = True,
       bars = [\<lparr>scale = (0.05, 0.05, 0.00005), location = (0, 0, 0.00005)\<rparr>,
               \<lparr>scale = (0.05, 0.05, 1 / 6), location = (1 / 4, 0, 1 / 6)\<rparr>,
               \<lparr>scale = (0.05, 0.05, 1 / 3), location = (1 / 2, 0, 1 / 3)\<rparr>,
               \<lparr>scale = (0.05, 0.05, 1 / 2), location = (1, 0, 1 / 2)\<rparr>],
       unplaced_cubes = 0,
       axes = Some \<lparr>steps = (1, 1, 1), ranges = ((1, 9), (10, 40), Num 10, Num 40),
                    dimension = 2, tick_labels = ([], [], []), axis_padding = 0,
                    axis_auto_steps = True, offset = 0\<rparr>\<rparr>)"
  by (simp add: run_simps example_auto_def)

lemma run_example_categorical:
  "execute spec_helpers example_categorical =
     (FINISHED,
      example_categorical\<lparr>dimensions := D2, axis_settings := example_axis\<lparr>x_range := (0, 2)\<rparr>\<rparr>,
      \<lparr>container_object = True,
       bars = [\<lparr>scale = (0.05, 0.05, 1 / 6), location = (0, 0, 1 / 6)\<rparr>,
               \<lparr>scale = (0.05, 0.05, 0.00005), location = (1 / 2, 0, 0.00005)\<rparr>,
               \<lparr>scale = (0.05, 0.05, 1 / 2), location = (1, 0, 1 / 2)\<rparr>],
       unplaced_cubes = 0,
       axes = Some \<lparr>steps = (1, 1, 1), ranges = ((0, 2), (0, 1), Num 0, Num 3),
                    dimension = 2, tick_labels = ([Cat ''A'', Cat ''B'', Cat ''C''], [], []),
                    axis_padding = 0, axis_auto_steps = True, offset = 0\<rparr>\<rparr>)"
  by (simp add: run_simps example_categorical_def)

subsection \<open>The clamp of the value axis\<close>

text \<open>
  C1: every bar of a finished build belongs to a row of the table; its height (the third
  component of its location and of its scale, before the factor 0.5) is the normalized value
  of the row, raised to 0.0001 when that lies in the closed interval [0, 0.0001], so it is
  never 0. The X position is the normalized X value as \<^verbatim>\<open>normalize_value\<close> returned it, and
  so is the Y position of a 3D chart: the clamp is applied to the value axis only.
\<close>

theorem value_axis_clamp:
  assumes "execute h self0 = (FINISHED, self, sc)" and "b \<in> set (bars sc)"
  shows "\<exists>i entry first x v z ar.
     i < length (data self0) \<and> entry = data self0 ! i \<and>
     axes sc = Some ar \<and>
     item entry 0 = Inr first \<and>
     normalize_value h (if data_type self = Numerical then first else Num (real i))
       (Num (fst (x_range (axis_settings self)))) (Num (snd (x_range (axis_settings self)))) = Inr x \<and>
     item entry (if dimensions self = D2 then 1 else 2) = Inr v \<and>
     normalize_value h v (fst (snd (snd (ranges ar)))) (snd (snd (snd (ranges ar)))) = Inr z \<and>
     fst (location b) = x \<and>
     snd (snd (location b)) = (if 0 \<le> z \<and> z \<le> 0.0001 then 0.0001 else z) * 0.5 \<and>
     snd (snd (scale b)) = (if 0 \<le> z \<and> z \<le> 0.0001 then 0.0001 else z) * 0.5 \<and>
     snd (snd (location b)) \<noteq> 0 \<and>
     (if dimensions self = D2 then fst (snd (location b)) = 0
      else \<exists>y y_norm.
             item entry 1 = Inr y \<and>
             normalize_value h y (Num (fst (y_range (axis_settings self))))
               (Num (snd (y_range (axis_settings self)))) = Inr y_norm \<and>
             fst (snd (location b)) = y_norm)"
proof -
  from execute_finished [OF assms(1)] obtain data_range results where
    su: "set_up_ranges h self0 = (None, self)" and
    la: "list_all2 (\<lambda>(i, entry) res.
         place_entry h self data_range (if dimensions self = D2 then 1 else 2) i entry = Inr res)
       (retained h self (enumerate 0 (data self))) results" and
    bs: "bars sc = map snd results" and
    ax: "axes sc = Some
       \<lparr>steps = (x_step (axis_settings self), y_step (axis_settings self), z_step (axis_settings self)),
        ranges = (x_range (axis_settings self), y_range (axis_settings self), data_range),
        dimension = (if dimensions self = D3 then 3 else 2),
        tick_labels = (concat (map fst results), [], []),
        axis_padding = padding (axis_settings self),
        axis_auto_steps = auto_steps (axis_settings self),
        offset = 0\<rparr>"
    by blast
  from assms(2) bs obtain l where "(l, b) \<in> set results"
    by auto
  from list_all2_in_right [OF la this] obtain i entry where
    mem: "(i, entry) \<in> set (retained h self (enumerate 0 (data self)))" and
    pe: "place_entry h self data_range (if dimensions self = D2 then 1 else 2) i entry = Inr (l, b)"
    by auto
  from su have d: "data self = data self0"
    by (simp add: set_up_ranges_frame)
  from mem d have i: "i < length (data self0)" "entry = data self0 ! i"
    by (auto simp: retained_def enumerate_eq_zip in_set_zip)
  from place_entry_result [OF pe] obtain first x v z where r:
    "item entry 0 = Inr first"
    "normalize_value h (if data_type self = Numerical then first else Num (real i))
       (Num (fst (x_range (axis_settings self)))) (Num (snd (x_range (axis_settings self)))) = Inr x"
    "item entry (if dimensions self = D2 then 1 else 2) = Inr v"
    "normalize_value h v (fst data_range) (snd data_range) = Inr z"
    "scale b = (fst (bar_size self), snd (bar_size self),
                (if 0 \<le> z \<and> z \<le> 0.0001 then 0.0001 else z) * 0.5)"
    "fst (location b) = x"
    "snd (snd (location b)) = (if 0 \<le> z \<and> z \<le> 0.0001 then 0.0001 else z) * 0.5"
    "(if dimensions self = D2 then fst (snd (location b)) = 0
      else \<exists>y y_norm.
             item entry 1 = Inr y \<and>
             normalize_value h y (Num (fst (y_range (axis_settings self))))
               (Num (snd (y_range (axis_settings self)))) = Inr y_norm \<and>
             fst (snd (location b)) = y_norm)"
    by blast
  have nz: "snd (snd (location b)) \<noteq> 0"
    unfolding r(7) by auto
  show ?thesis
    apply (rule exI [of _ i], rule exI [of _ entry], rule exI [of _ first], rule exI [of _ x],
        rule exI [of _ v], rule exI [of _ z])
    using i ax r nz by simp
qed

theorem value_axis_clamp_witness:
  "fst (execute spec_helpers example_auto) = FINISHED \<and>
   \<lparr>scale = (0.05, 0.05, 0.00005), location = (0, 0, 0.00005)\<rparr>
     \<in> set (bars (snd (snd (execute spec_helpers example_auto)))) \<and>
   (\<exists>i entry first x v z ar.
     i < length (data example_auto) \<and> entry = data example_auto ! i \<and>
     axes (snd (snd (execute spec_helpers example_auto))) = Some ar \<and>
     item entry 0 = Inr first \<and>
     normalize_value spec_helpers first (Num 1) (Num 9) = Inr x \<and>
     item entry 1 = Inr v \<and>
     normalize_value spec_helpers v (fst (snd (snd (ranges ar)))) (snd (snd (snd (ranges ar)))) = Inr z \<and>
     x = 0 \<and>
     (if 0 \<le> z \<and> z \<le> 0.0001 then 0.0001 else z) * 0.5 = (0.00005 :: real))"
proof -
  let ?b = "\<lparr>scale = (0.05, 0.05, 0.00005), location = (0, 0, 0.00005 :: real)\<rparr>"
  have run: "execute spec_helpers example_auto =
      (FINISHED, fst (snd (execute spec_helpers example_auto)), snd (snd (execute spec_helpers example_auto)))"
    by (simp add: run_example_auto)
  have mem: "?b \<in> set (bars (snd (snd (execute spec_helpers example_auto))))"
    by (simp add: run_example_auto)
  from value_axis_clamp [OF run mem] obtain i entry first x v z ar where
    i: "i < length (data example_auto)" "entry = data example_auto ! i" and
    ar: "axes (snd (snd (execute spec_helpers example_auto))) = Some ar" and
    first: "item entry 0 = Inr first" and
    x: "normalize_value spec_helpers
          (if data_type (fst (snd (execute spec_helpers example_auto))) = Numerical
           then first else Num (real i))
          (Num (fst (x_range (axis_settings (fst (snd (execute spec_helpers example_auto)))))))
          (Num (snd (x_range (axis_settings (fst (snd (execute spec_helpers example_auto))))))) = Inr x" and
    v: "item entry (if dimensions (fst (snd (execute spec_helpers example_auto))) = D2 then 1 else 2) = Inr v" and
    z: "normalize_value spec_helpers v (fst (snd (snd (ranges ar)))) (snd (snd (snd (ranges ar)))) = Inr z" and
    lx: "fst (location ?b) = x" and
    lz: "snd (snd (location ?b)) = (if 0 \<le> z \<and> z \<le> 0.0001 then 0.0001 else z) * 0.5"
    by blast
  from x have x': "normalize_value spec_helpers first (Num 1) (Num 9) = Inr x"
    unfolding run_example_auto by (simp add: example_auto_def example_numerical_def)
  from v have v': "item entry 1 = Inr v"
    unfolding run_example_auto by (simp add: example_auto_def example_numerical_def)
  from lx have x0: "x = 0"
    by simp
  from lz have z0: "(if 0 \<le> z \<and> z \<le> 0.0001 then 0.0001 else z) * 0.5 = (0.00005 :: real)"
    by simp
  have "fst (execute spec_helpers example_auto) = FINISHED"
    by (simp add: run_example_auto)
  with mem i ar first x' v' z x0 z0 show ?thesis
    by blast
qed

subsection \<open>Categorical data and the dimensions\<close>



text \<open>
  C4: for numerical data, a 3D request against a table whose rows have fewer than 3 columns
  is cancelled with the report "Data are only 2D!", and nothing is made in the scene: no
  container and no bar. The ranges are set up before the check; the statement is for a build
  whose set-up returned.
\<close>

theorem numerical_3d_needs_three_columns:
  assumes "data_type self0 = Numerical" and "dimensions self0 = D3"
    and "set_up_ranges h self0 = (None, self)"
    and "data self0 \<noteq> []" and "list_all (\<lambda>r. length r < 3) (data self0)"
  shows "execute h self0 = (CANCELLED ''Data are only 2D!'', self, empty_scene)"
proof -
  from assms(1-3) have d: "dimensions self = D3" "data self = data self0"
    by (simp_all add: set_up_ranges_numerical set_up_ranges_frame)
  from assms(4,5) obtain r rs where "data self0 = r # rs" "length r \<noteq> 3"
    by (cases "data self0") auto
  with d have "data_only_2d self = Inr True"
    by (simp add: data_only_2d_def)
  with assms(3) show ?thesis
    by (simp add: execute_def)
qed

theorem numerical_3d_needs_three_columns_witness:
  "data_type (example_auto\<lparr>dimensions := D3\<rparr>) = Numerical \<and>
   dimensions (example_auto\<lparr>dimensions := D3\<rparr>) = D3 \<and>
   auto_ranges (axis_settings (example_auto\<lparr>dimensions := D3\<rparr>)) \<and>
   set_up_ranges spec_helpers (example_auto\<lparr>dimensions := D3\<rparr>) =
     (None, example_auto\<lparr>dimensions := D3,
                         axis_settings := example_axis
                           \<lparr>auto_ranges := True, x_range := (1, 9), y_range := (10, 40)\<rparr>\<rparr>) \<and>
   data (example_auto\<lparr>dimensions := D3\<rparr>) \<noteq> [] \<and>
   list_all (\<lambda>r. length r < 3) (data (example_auto\<lparr>dimensions := D3\<rparr>)) \<and>
   execute spec_helpers (example_auto\<lparr>dimensions := D3\<rparr>) =
     (CANCELLED ''Data are only 2D!'',
      example_auto\<lparr>dimensions := D3,
                   axis_settings := example_axis
                     \<lparr>auto_ranges := True, x_range := (1, 9), y_range := (10, 40)\<rparr>\<rparr>,
      empty_scene)"
proof -
  let ?op = "example_auto\<lparr>dimensions := D3\<rparr>"
  let ?done = "example_auto\<lparr>dimensions := D3,
      axis_settings := example_axis\<lparr>auto_ranges := True, x_range := (1, 9), y_range := (10, 40)\<rparr>\<rparr>"
  have 1: "data_type ?op = Numerical" and 2: "dimensions ?op = D3"
    and 4: "data ?op \<noteq> []" and 5: "list_all (\<lambda>r. length r < 3) (data ?op)"
    and a: "auto_ranges (axis_settings ?op)"
    by (simp_all add: example_auto_def example_numerical_def example_axis_def)
  have 3: "set_up_ranges spec_helpers ?op = (None, ?done)"
    by (simp add: example_auto_def example_numerical_def example_axis_def set_up_ranges_def
        init_range_def spec_helpers_def find_axis_range_spec_def item_def resolve_def)
  from numerical_3d_needs_three_columns [OF 1 2 3 4 5] 1 2 3 4 5 a show ?thesis
    by blast
qed

subsection \<open>Failure after the container is made\<close>

text \<open>
  A build that is cancelled with "Data are only 2D!" has made nothing: the check of the
  dimensions returns before the container is created.
\<close>

lemma dimension_failure_makes_nothing:
  assumes "execute h self0 = (CANCELLED ''Data are only 2D!'', self, sc)"
  shows "sc = empty_scene \<and> data_only_2d self = Inr True"
proof -
  obtain r self' where su: "set_up_ranges h self0 = (r, self')"
    by (cases "set_up_ranges h self0")
  show ?thesis
  proof (cases r)
    case (Some e)
    with su assms show ?thesis
      by (simp add: execute_def)
  next
    case None
    show ?thesis
    proof (cases "data_only_2d self'")
      case (Inl e)
      with su None assms show ?thesis
        by (simp add: execute_def)
    next
      case two: (Inr b)
      show ?thesis
      proof (cases b)
        case True
        with su None two assms show ?thesis
          by (simp add: execute_def)
      next
        case False
        show ?thesis
        proof (cases "value_range h self'")
          case (Inl out)
          then have "out \<noteq> CANCELLED ''Data are only 2D!''"
            by (auto simp: value_range_def split: if_splits sum.splits)
          with Inl su None two False assms show ?thesis
            by (simp add: execute_def)
        next
          case (Inr rng)
          obtain err sc' labels where
            "place_all h self' rng (if dimensions self' = D2 then 1 else 2) (enumerate 0 (data self'))
               (empty_scene\<lparr>container_object := True\<rparr>) [] = (err, sc', labels)"
            by (metis prod_cases3)
          with su None two False Inr assms show ?thesis
            by (cases err) (simp_all add: execute_def)
        qed
      qed
    qed
  qed
qed

text \<open>
  When \<^verbatim>\<open>find_data_range\<close> raises, whatever it raises, the build is cancelled after
  \<^verbatim>\<open>create_container()\<close> has run: the scene keeps the container.
\<close>

lemma range_failure_leaves_container:
  assumes "data_type self0 = Numerical" and "set_up_ranges h self0 = (None, self)"
    and "data_only_2d self = Inr False"
    and "find_data_range h (data self) (x_range (axis_settings self))
           (if dimensions self = D3 then Some (y_range (axis_settings self)) else None) = Inl e"
  shows "execute h self0 =
     (CANCELLED ''Cannot find data in this range!'', self, empty_scene\<lparr>container_object := True\<rparr>)"
proof -
  from assms(1,2) have "data_type self = Numerical"
    by (simp add: set_up_ranges_frame)
  with assms(4) have "value_range h self = Inl (CANCELLED ''Cannot find data in this range!'')"
    by (simp add: value_range_def)
  with assms(2,3) show ?thesis
    by (simp add: execute_def)
qed

text \<open>
  So does a categorical build of a table with zero rows, for every choice of the helper
  functions: \<^verbatim>\<open>min\<close> raises ValueError after the container is made.
\<close>

lemma empty_categorical_leaves_container:
  assumes "data_type self0 = Categorical" and "data self0 = []"
  shows "fst (execute h self0) = Raised ValueError \<and>
     snd (snd (execute h self0)) = empty_scene\<lparr>container_object := True\<rparr>"
proof -
  from assms(1) have "data_type self0 \<noteq> Numerical"
    by simp
  from set_up_ranges_categorical [OF this, of h] assms show ?thesis
    by (simp add: execute_def data_only_2d_def value_range_def min_value_def)
qed

text \<open>
  C8, at a table with zero rows. The numerical build, with the range resolver of the
  specification, is cancelled with the report "Cannot find data in this range!" and leaves
  the container in the scene; the categorical build raises ValueError, whatever the helper
  functions are, and leaves the container as well.
\<close>

theorem container_left_after_range_failure:
  "execute spec_helpers example_empty =
     (CANCELLED ''Cannot find data in this range!'', example_empty,
      \<lparr>container_object = True, bars = [], unplaced_cubes = 0, axes = None\<rparr>) \<and>
   fst (execute h (example_empty\<lparr>data_type := Categorical\<rparr>)) = Raised ValueError \<and>
   snd (snd (execute h (example_empty\<lparr>data_type := Categorical\<rparr>))) =
     \<lparr>container_object = True, bars = [], unplaced_cubes = 0, axes = None\<rparr>"
proof -
  have "execute spec_helpers example_empty =
     (CANCELLED ''Cannot find data in this range!'', example_empty,
      \<lparr>container_object = True, bars = [], unplaced_cubes = 0, axes = None\<rparr>)"
    by (simp add: run_simps example_empty_def)
  moreover have "data_type (example_empty\<lparr>data_type := Categorical\<rparr>) = Categorical"
    "data (example_empty\<lparr>data_type := Categorical\<rparr>) = []"
    by (simp_all add: example_empty_def)
  from empty_categorical_leaves_container [OF this, of h]
  have "fst (execute h (example_empty\<lparr>data_type := Categorical\<rparr>)) = Raised ValueError"
    "snd (snd (execute h (example_empty\<lparr>data_type := Categorical\<rparr>))) =
     \<lparr>container_object = True, bars = [], unplaced_cubes = 0, axes = None\<rparr>"
    by (simp_all add: empty_scene_def)
  ultimately show ?thesis
    by simp
qed

subsection \<open>Running the build again\<close>

text \<open>
  The run changes the request (the dimensions of a categorical chart, the ranges). A second
  run on the operator as the first one left it gives the first run's outcome, error or not,
  with the same axes and the same bars.
\<close>

lemma execute_again:
  "execute h (fst (snd (execute h self0))) = execute h self0"
proof -
  obtain r self where su: "set_up_ranges h self0 = (r, self)"
    by (cases "set_up_ranges h self0")
  then have "fst (snd (execute h self0)) = self"
    by (rule execute_operator)
  moreover from su have "set_up_ranges h self = set_up_ranges h self0"
    by (simp add: set_up_ranges_again)
  ultimately show ?thesis
    by (simp add: execute_after_set_up [of h self self0])
qed

subsection \<open>Categorical charts\<close>

lemma min_scan_numeric:
  "map (\<lambda>r. item r 1) rows = map (\<lambda>v. Inr (Num v)) vs \<Longrightarrow>
   min_scan (Num b) rows = Inr (Num (fold min vs b))"
proof (induction rows arbitrary: b vs)
  case Nil
  then show ?case by simp
next
  case (Cons r rows)
  then obtain v vs' where vs: "vs = v # vs'" and r: "item r 1 = Inr (Num v)"
    and rest: "map (\<lambda>r. item r 1) rows = map (\<lambda>v. Inr (Num v)) vs'"
    by (cases vs) auto
  have "(if v < b then Num v else Num b) = Num (min v b)"
    by (simp add: min_def)
  with Cons.IH [OF rest, of "min v b"] r vs show ?case
    by simp
qed

lemma max_scan_numeric:
  "map (\<lambda>r. item r 1) rows = map (\<lambda>v. Inr (Num v)) vs \<Longrightarrow>
   max_scan (Num b) rows = Inr (Num (fold max vs b))"
proof (induction rows arbitrary: b vs)
  case Nil
  then show ?case by simp
next
  case (Cons r rows)
  then obtain v vs' where vs: "vs = v # vs'" and r: "item r 1 = Inr (Num v)"
    and rest: "map (\<lambda>r. item r 1) rows = map (\<lambda>v. Inr (Num v)) vs'"
    by (cases vs) auto
  have "(if b < v then Num v else Num b) = Num (max v b)"
    by (simp add: max_def)
  with Cons.IH [OF rest, of "max v b"] r vs show ?case
    by simp
qed

lemma min_value_numeric:
  assumes "map (\<lambda>r. item r 1) rows = map (\<lambda>v. Inr (Num v)) vs" and "rows \<noteq> []"
  shows "min_value rows = Inr (Num (Min (set vs)))"
proof -
  from assms obtain r rs v vs' where rows: "rows = r # rs" and vs: "vs = v # vs'"
    and r: "item r 1 = Inr (Num v)"
    and rest: "map (\<lambda>r. item r 1) rs = map (\<lambda>v. Inr (Num v)) vs'"
    by (cases rows; cases vs) auto
  have "Min (set (v # vs')) = fold min vs' v"
    by (rule Min.set_eq_fold)
  with min_scan_numeric [OF rest, of v] rows vs r show ?thesis
    by (simp add: min_value_def)
qed

lemma max_value_numeric:
  assumes "map (\<lambda>r. item r 1) rows = map (\<lambda>v. Inr (Num v)) vs" and "rows \<noteq> []"
  shows "max_value rows = Inr (Num (Max (set vs)))"
proof -
  from assms obtain r rs v vs' where rows: "rows = r # rs" and vs: "vs = v # vs'"
    and r: "item r 1 = Inr (Num v)"
    and rest: "map (\<lambda>r. item r 1) rs = map (\<lambda>v. Inr (Num v)) vs'"
    by (cases rows; cases vs) auto
  have "Max (set (v # vs')) = fold max vs' v"
    by (rule Max.set_eq_fold)
  with max_scan_numeric [OF rest, of v] rows vs r show ?thesis
    by (simp add: max_value_def)
qed

lemma list_all2_map_eq:
  "list_all2 P xs ys \<Longrightarrow> (\<And>x y. P x y \<Longrightarrow> f y = g x) \<Longrightarrow> map f ys = map g xs"
  by (induction rule: list_all2_induct) auto


lemma normalize_value_spec_index:
  "normalize_value_spec (Num i) (Num 0) (Num m) = Inr x \<Longrightarrow> x = i / m"
  by (auto split: if_splits)

lemma run_example_categorical_triple:
  "execute spec_helpers example_categorical =
     (FINISHED, fst (snd (execute spec_helpers example_categorical)),
      snd (snd (execute spec_helpers example_categorical)))"
  by (simp add: run_example_categorical)

text \<open>
  C5: a build of categorical data over \<open>n\<close> rows sets the X range to \<open>[0, n - 1]\<close> and
  hands it to the axes; the raw X value of a row the loop keeps is its index \<open>i\<close> in the
  table, and with the linear map of the specification as \<^verbatim>\<open>normalize_value\<close> the X
  position of its bar is \<open>i / (n - 1)\<close>. The bars stand in the order of the table. For three
  categories the positions are 0, 1/2 and 1.
\<close>

theorem categorical_positions:
  assumes "data_type self0 = Categorical" and "normalize_value h = normalize_value_spec"
    and "execute h self0 = (FINISHED, self, sc)"
  shows "x_range (axis_settings self) = (0, real (length (data self0)) - 1) \<and>
     (\<exists>ar. axes sc = Some ar \<and> fst (ranges ar) = (0, real (length (data self0)) - 1)) \<and>
     map (\<lambda>b. fst (location b)) (bars sc) =
       map (\<lambda>(i, entry). real i / (real (length (data self0)) - 1))
         (retained h self (enumerate 0 (data self0)))"
proof -
  from execute_finished [OF assms(3)] obtain data_range results ar where
    su: "set_up_ranges h self0 = (None, self)" and
    la: "list_all2 (\<lambda>(i, entry) res.
         place_entry h self data_range (if dimensions self = D2 then 1 else 2) i entry = Inr res)
       (retained h self (enumerate 0 (data self))) results" and
    bs: "bars sc = map snd results" and
    ax: "axes sc = Some ar" and rg: "fst (ranges ar) = x_range (axis_settings self)"
    by force
  from assms(1) have "data_type self0 \<noteq> Numerical"
    by simp
  from su [unfolded set_up_ranges_categorical [OF this]]
  have xr: "x_range (axis_settings self) = (0, real (length (data self0)) - 1)"
    and cat: "data_type self \<noteq> Numerical" and d: "data self = data self0"
    using assms(1) by auto
  have pos: "fst (location (snd res)) = real i / (real (length (data self0)) - 1)"
    if "place_entry h self data_range (if dimensions self = D2 then 1 else 2) i entry = Inr res"
    for i entry res
  proof -
    obtain l b where res: "res = (l, b)"
      by (cases res)
    from place_entry_result [OF that [unfolded res]] cat xr assms(2)
    obtain x where "normalize_value_spec (Num (real i)) (Num 0) (Num (real (length (data self0)) - 1)) = Inr x"
      and "fst (location b) = x"
      by auto
    with res show ?thesis
      using normalize_value_spec_index [of "real i" "real (length (data self0)) - 1" x] by simp
  qed
  have "map (\<lambda>res. fst (location (snd res))) results =
      map (\<lambda>(i, entry). real i / (real (length (data self0)) - 1))
        (retained h self (enumerate 0 (data self)))"
    by (rule list_all2_map_eq [OF la]) (auto dest: pos)
  with bs d have "map (\<lambda>b. fst (location b)) (bars sc) =
       map (\<lambda>(i, entry). real i / (real (length (data self0)) - 1))
         (retained h self (enumerate 0 (data self0)))"
    by (simp add: comp_def)
  with xr ax rg show ?thesis
    by simp
qed

theorem categorical_positions_witness:
  "data_type example_categorical = Categorical \<and>
   normalize_value spec_helpers = normalize_value_spec \<and>
   fst (execute spec_helpers example_categorical) = FINISHED \<and>
   x_range (axis_settings (fst (snd (execute spec_helpers example_categorical)))) = (0, 2) \<and>
   map fst (retained spec_helpers (fst (snd (execute spec_helpers example_categorical)))
        (enumerate 0 (data example_categorical))) = [0, 1, 2] \<and>
   map (\<lambda>b. fst (location b)) (bars (snd (snd (execute spec_helpers example_categorical)))) =
     [0, 1 / 2, 1]"
proof -
  have cat: "data_type example_categorical = Categorical"
    by (simp add: example_categorical_def)
  have norm: "normalize_value spec_helpers = normalize_value_spec"
    by (simp add: spec_helpers_def)
  have ret: "retained spec_helpers (fst (snd (execute spec_helpers example_categorical)))
        (enumerate 0 (data example_categorical)) =
      [(0, [Cat ''A'', Num 1]), (1, [Cat ''B'', Num 0]), (2, [Cat ''C'', Num 3])]"
    unfolding run_example_categorical
    by (simp add: retained_def example_categorical_def spec_helpers_def
        in_axis_range_bounds_new_spec_def enumerate_eq_zip)
  have n: "length (data example_categorical) = 3"
    by (simp add: example_categorical_def)
  from categorical_positions [OF cat norm run_example_categorical_triple]
  have "x_range (axis_settings (fst (snd (execute spec_helpers example_categorical)))) = (0, 2)"
    and "map (\<lambda>b. fst (location b)) (bars (snd (snd (execute spec_helpers example_categorical)))) =
     [0, 1 / 2, 1]"
    unfolding ret n by simp_all
  with cat norm ret show ?thesis
    by (simp add: run_example_categorical)
qed

subsection \<open>Tick labels of a categorical axis\<close>










text \<open>
  C7: the value range of a categorical build, as handed to the axes, is what \<^verbatim>\<open>min\<close> and
  \<^verbatim>\<open>max\<close> find in the column of index 1 of the table, for a column of numbers its least and
  its greatest number. The statement holds for every setting of the ranges in the request:
  the value range does not depend on them.
\<close>

theorem categorical_value_range:
  assumes "data_type self0 = Categorical" and "execute h self0 = (FINISHED, self, sc)"
    and "map (\<lambda>r. item r 1) (data self0) = map (\<lambda>v. Inr (Num v)) vs"
  shows "\<exists>ar.
     axes sc = Some ar \<and>
     min_value (data self0) = Inr (fst (snd (snd (ranges ar)))) \<and>
     max_value (data self0) = Inr (snd (snd (snd (ranges ar)))) \<and>
     snd (snd (ranges ar)) = (Num (Min (set vs)), Num (Max (set vs)))"
proof -
  from execute_finished [OF assms(2)] obtain data_range ar where
    su: "set_up_ranges h self0 = (None, self)" and
    vr: "value_range h self = Inr data_range" and
    ax: "axes sc = Some ar" and rg: "snd (snd (ranges ar)) = data_range"
    by force
  from su assms(1) have cat: "data_type self \<noteq> Numerical" and d: "data self = data self0"
    by (simp_all add: set_up_ranges_frame)
  from vr cat d have mm: "min_value (data self0) = Inr (fst data_range)"
    "max_value (data self0) = Inr (snd data_range)"
    by (auto simp: value_range_def split: sum.splits)
  then have "data self0 \<noteq> []"
    by (auto simp: min_value_def)
  with assms(3) mm have "data_range = (Num (Min (set vs)), Num (Max (set vs)))"
    by (simp add: min_value_numeric max_value_numeric prod_eq_iff)
  with ax rg mm show ?thesis
    by simp
qed

theorem categorical_value_range_witness:
  "data_type example_categorical = Categorical \<and>
   fst (execute spec_helpers example_categorical) = FINISHED \<and>
   map (\<lambda>r. item r 1) (data example_categorical) = map (\<lambda>v. Inr (Num v)) [1, 0, 3] \<and>
   (\<exists>ar. axes (snd (snd (execute spec_helpers example_categorical))) = Some ar \<and>
      snd (snd (ranges ar)) = (Num 0, Num 3))"
proof -
  have cat: "data_type example_categorical = Categorical"
    by (simp add: example_categorical_def)
  have col: "map (\<lambda>r. item r 1) (data example_categorical) = map (\<lambda>v. Inr (Num v)) [1, 0, 3]"
    by (simp add: example_categorical_def item_def)
  from categorical_value_range [OF cat run_example_categorical_triple col]
  obtain ar where "axes (snd (snd (execute spec_helpers example_categorical))) = Some ar"
    and "snd (snd (ranges ar)) = (Num (Min (set [1, 0, 3])), Num (Max (set [1, 0, 3])))"
    by blast
  then have "\<exists>ar. axes (snd (snd (execute spec_helpers example_categorical))) = Some ar \<and>
      snd (snd (ranges ar)) = (Num 0, Num 3)"
    by simp
  with cat col show ?thesis
    by (simp add: run_example_categorical)
qed

subsection \<open>The bounds filter\<close>

lemma place_all_skips:
  "place_all h self rng vi rows sc labels =
   place_all h self rng vi
     (filter (\<lambda>(i, entry). in_axis_range_bounds_new h self entry \<noteq> Inr False) rows) sc labels"
proof (induction rows arbitrary: sc labels)
  case Nil
  show ?case by simp
next
  case (Cons p rows)
  obtain i entry where p: "p = (i, entry)"
    by (cases p)
  show ?case
  proof (cases "in_axis_range_bounds_new h self entry")
    case (Inl e)
    with p show ?thesis by simp
  next
    case verdict: (Inr inside)
    show ?thesis
    proof (cases inside)
      case False
      with verdict p Cons.IH [of sc labels] show ?thesis by simp
    next
      case True
      show ?thesis
      proof (cases "place_entry h self rng vi i entry")
        case (Inl e)
        with verdict True p show ?thesis by simp
      next
        case (Inr res)
        obtain l b where "res = (l, b)"
          by (cases res)
        with Inr verdict True p Cons.IH [of "sc\<lparr>bars := bars sc @ [b]\<rparr>" "labels @ l"]
        show ?thesis by simp
      qed
    qed
  qed
qed

lemma number_item: "k < length r \<Longrightarrow> number (item (map Num r) k) = Inr (r ! k)"
  by (simp add: item_def)

lemma item_Num: "k < length r \<Longrightarrow> item (map Num r) k = Inr (Num (r ! k))"
  by (simp add: item_def)

lemma filter_first_numbers:
  assumes "data_type self = Numerical"
  shows "in_axis_range_bounds_new_spec self (Num x # Num y # rest) = Inr (inside_ranges self [x, y])"
  using assms
  by (cases "dimensions self") (auto simp: in_axis_range_bounds_new_spec_def item_def inside_ranges_def)

lemma list_all2_weaken:
  "list_all2 P xs ys \<Longrightarrow> (\<And>x y. P x y \<Longrightarrow> Q x y) \<Longrightarrow> list_all2 Q xs ys"
  by (rule list_all2_mono)

text \<open>
  C2: with the bounds filter of the specification, a row of numbers is kept exactly when its
  positional values lie inside the ranges in use. A row the filter rejects is skipped: the
  loop over the table does what it does on the table without that row, so the row makes no
  bar, raises nothing and changes nothing. In a finished build the bars are, in table order,
  one for each row the filter keeps, placed at that row's normalized X value, and no cube
  is left unplaced.
\<close>

theorem bounds_filter:
  assumes "in_axis_range_bounds_new h = in_axis_range_bounds_new_spec"
  shows "(data_type self = Numerical \<longrightarrow>
       in_axis_range_bounds_new h self (Num x # Num y # rest) = Inr (inside_ranges self [x, y])) \<and>
     place_all h self rng vi rows sc labels =
       place_all h self rng vi
         (filter (\<lambda>(i, entry). in_axis_range_bounds_new_spec self entry \<noteq> Inr False) rows) sc labels \<and>
     (execute h self0 = (FINISHED, self1, sc1) \<longrightarrow>
       list_all2
         (\<lambda>(i, entry) b. \<exists>first x_norm.
            item entry 0 = Inr first \<and>
            normalize_value h (if data_type self1 = Numerical then first else Num (real i))
              (Num (fst (x_range (axis_settings self1)))) (Num (snd (x_range (axis_settings self1))))
              = Inr x_norm \<and>
            fst (location b) = x_norm)
         (filter (\<lambda>(i, entry). in_axis_range_bounds_new_spec self1 entry = Inr True)
            (enumerate 0 (data self0)))
         (bars sc1) \<and>
       length (bars sc1) =
         length (filter (\<lambda>entry. in_axis_range_bounds_new_spec self1 entry = Inr True) (data self0)) \<and>
       unplaced_cubes sc1 = 0)"
proof (intro conjI impI)
  assume "data_type self = Numerical"
  with assms show "in_axis_range_bounds_new h self (Num x # Num y # rest) = Inr (inside_ranges self [x, y])"
    by (simp add: filter_first_numbers)
next
  from place_all_skips [of h self rng vi rows sc labels] assms
  show "place_all h self rng vi rows sc labels =
       place_all h self rng vi
         (filter (\<lambda>(i, entry). in_axis_range_bounds_new_spec self entry \<noteq> Inr False) rows) sc labels"
    by simp
next
  assume fin: "execute h self0 = (FINISHED, self1, sc1)"
  from execute_finished [OF fin] obtain data_range results where
    su: "set_up_ranges h self0 = (None, self1)" and
    la: "list_all2 (\<lambda>(i, entry) res.
         place_entry h self1 data_range (if dimensions self1 = D2 then 1 else 2) i entry = Inr res)
       (retained h self1 (enumerate 0 (data self1))) results" and
    bs: "bars sc1 = map snd results" and
    cubes: "unplaced_cubes sc1 = 0"
    by blast
  from su have d: "data self1 = data self0"
    by (simp add: set_up_ranges_frame)
  have ret: "retained h self1 (enumerate 0 (data self1)) =
      filter (\<lambda>(i, entry). in_axis_range_bounds_new_spec self1 entry = Inr True) (enumerate 0 (data self0))"
    by (simp add: retained_def assms d)
  define placed where "placed = (\<lambda>(i :: nat, entry) (b :: bar). \<exists>first x_norm.
            item entry 0 = Inr first \<and>
            normalize_value h (if data_type self1 = Numerical then first else Num (real i))
              (Num (fst (x_range (axis_settings self1)))) (Num (snd (x_range (axis_settings self1))))
              = Inr x_norm \<and>
            fst (location b) = x_norm)"
  have "list_all2 (\<lambda>p res. placed p (snd res)) (retained h self1 (enumerate 0 (data self1))) results"
  proof (rule list_all2_mono [OF la])
    fix p res
    assume pe: "(case p of (i, entry) \<Rightarrow> \<lambda>res.
        place_entry h self1 data_range (if dimensions self1 = D2 then 1 else 2) i entry = Inr res) res"
    obtain i entry where p: "p = (i, entry)"
      by (cases p)
    obtain l b where res: "res = (l, b)"
      by (cases res)
    from pe p res have "place_entry h self1 data_range (if dimensions self1 = D2 then 1 else 2) i entry = Inr (l, b)"
      by simp
    from place_entry_result [OF this] obtain first x_norm where
      "item entry 0 = Inr first"
      "normalize_value h (if data_type self1 = Numerical then first else Num (real i))
              (Num (fst (x_range (axis_settings self1)))) (Num (snd (x_range (axis_settings self1))))
              = Inr x_norm"
      "fst (location b) = x_norm"
      by blast
    then have "placed (i, entry) b"
      unfolding placed_def by blast
    with p res show "placed p (snd res)"
      by simp
  qed
  then have "list_all2 placed (retained h self1 (enumerate 0 (data self1))) (map snd results)"
    by (simp add: list_all2_map2)
  then show "list_all2
         (\<lambda>(i, entry) b. \<exists>first x_norm.
            item entry 0 = Inr first \<and>
            normalize_value h (if data_type self1 = Numerical then first else Num (real i))
              (Num (fst (x_range (axis_settings self1)))) (Num (snd (x_range (axis_settings self1))))
              = Inr x_norm \<and>
            fst (location b) = x_norm)
         (filter (\<lambda>(i, entry). in_axis_range_bounds_new_spec self1 entry = Inr True)
            (enumerate 0 (data self0)))
         (bars sc1)"
    unfolding ret bs placed_def .
  from la have "length results = length (retained h self1 (enumerate 0 (data self1)))"
    by (simp add: list_all2_lengthD)
  also have "\<dots> = length (filter (\<lambda>entry. in_axis_range_bounds_new_spec self1 entry = Inr True) (data self0))"
  proof -
    have "map snd (filter (\<lambda>(i, entry). P entry) (enumerate n xs)) = filter P xs" for P n and xs :: "row list"
      by (induction xs arbitrary: n) auto
    from this [of "\<lambda>entry. in_axis_range_bounds_new_spec self1 entry = Inr True" 0 "data self0"]
    show ?thesis
      unfolding ret by (metis length_map)
  qed
  finally show "length (bars sc1) =
         length (filter (\<lambda>entry. in_axis_range_bounds_new_spec self1 entry = Inr True) (data self0))"
    by (simp add: bs)
  from cubes show "unplaced_cubes sc1 = 0" .
qed

lemma filter_numeric_row:
  assumes "data_type self = Numerical" and "length r = (if dimensions self = D2 then 2 else 3)"
  shows "in_axis_range_bounds_new_spec self (map Num r) = Inr (inside_ranges self r)"
proof (cases "dimensions self")
  case D2
  with assms show ?thesis
    by (auto simp: in_axis_range_bounds_new_spec_def number_item inside_ranges_def)
next
  case D3
  with assms show ?thesis
    by (auto simp: in_axis_range_bounds_new_spec_def number_item inside_ranges_def)
qed

lemma column_values_numeric:
  "list_all (\<lambda>r. k < length r) rows \<Longrightarrow>
   column_values k (map (map Num) rows) = Inr (map (\<lambda>r. r ! k) rows)"
  by (induction rows) (simp_all add: number_item)

lemma resolve_proper:
  assumes "vs \<noteq> []"
  shows "\<exists>lo hi. resolve vs = Inr (lo, hi) \<and> lo < hi"
proof -
  from assms have "Min (set vs) \<le> hd vs" "hd vs \<le> Max (set vs)"
    by simp_all
  then have le: "Min (set vs) \<le> Max (set vs)"
    by (rule order_trans)
  show ?thesis
  proof (cases "Min (set vs) = Max (set vs)")
    case True
    with assms have "resolve vs = Inr (Min (set vs) - 0.5, Max (set vs) + 0.5)"
      by (simp add: resolve_def)
    moreover have "Max (set vs) - 0.5 < Max (set vs) + 0.5"
      by simp
    with True have "Min (set vs) - 0.5 < Max (set vs) + 0.5"
      by (simp only:)
    ultimately show ?thesis
      by blast
  next
    case False
    with assms have "resolve vs = Inr (Min (set vs), Max (set vs))"
      by (simp add: resolve_def)
    moreover from False le have "Min (set vs) < Max (set vs)"
      by (rule order.not_eq_order_implies_strict)
    ultimately show ?thesis
      by blast
  qed
qed

lemma find_data_range_numeric:
  assumes "list_all (\<lambda>r. length r = (if dimensions self = D2 then 2 else 3)) table"
    and "table \<noteq> []"
  shows "\<exists>lo hi.
     find_data_range_spec (map (map Num) table) (x_range (axis_settings self))
       (if dimensions self = D3 then Some (y_range (axis_settings self)) else None) =
     Inr (Num lo, Num hi) \<and> lo < hi"
proof -
  let ?vi = "if dimensions self = D2 then 1 else 2 :: nat"
  from assms(1) have "list_all (\<lambda>r. ?vi < length r) table"
    by (auto simp: list_all_iff)
  then have col: "column_values ?vi (map (map Num) table) = Inr (map (\<lambda>r. r ! ?vi) table)"
    by (rule column_values_numeric)
  from assms(2) have "map (\<lambda>r. r ! ?vi) table \<noteq> []"
    by simp
  from resolve_proper [OF this] obtain lo hi where
    "resolve (map (\<lambda>r. r ! ?vi) table) = Inr (lo, hi)" "lo < hi"
    by blast
  with col show ?thesis
    by (cases "dimensions self") (auto simp: find_data_range_spec_def)
qed

lemma place_entry_numeric:
  assumes "data_type self = Numerical"
    and "length r = (if dimensions self = D2 then 2 else 3)"
    and "fst (x_range (axis_settings self)) < snd (x_range (axis_settings self))"
    and "dimensions self = D2 \<or> fst (y_range (axis_settings self)) < snd (y_range (axis_settings self))"
    and "lo < hi"
  shows "\<exists>b. place_entry spec_helpers self (Num lo, Num hi) (if dimensions self = D2 then 1 else 2)
             i (map Num r) = Inr ([], b) \<and>
           fst (location b) =
             (r ! 0 - fst (x_range (axis_settings self))) /
             (snd (x_range (axis_settings self)) - fst (x_range (axis_settings self)))"
proof (cases "dimensions self")
  case D2
  with assms show ?thesis
    by (simp add: place_entry_def spec_helpers_def item_Num Let_def)
next
  case D3
  with assms show ?thesis
    by (simp add: place_entry_def spec_helpers_def item_Num Let_def)
qed

lemma place_all_numeric:
  assumes "data_type self = Numerical"
    and "list_all (\<lambda>r. length r = (if dimensions self = D2 then 2 else 3)) table"
    and "fst (x_range (axis_settings self)) < snd (x_range (axis_settings self))"
    and "dimensions self = D2 \<or> fst (y_range (axis_settings self)) < snd (y_range (axis_settings self))"
    and "lo < hi"
  shows "\<exists>sc'.
     place_all spec_helpers self (Num lo, Num hi) (if dimensions self = D2 then 1 else 2)
       (enumerate n (map (map Num) table)) sc labels = (None, sc', labels) \<and>
     map (\<lambda>b. fst (location b)) (bars sc') =
       map (\<lambda>b. fst (location b)) (bars sc) @
       map (\<lambda>r. (r ! 0 - fst (x_range (axis_settings self))) /
                 (snd (x_range (axis_settings self)) - fst (x_range (axis_settings self))))
         (filter (inside_ranges self) table) \<and>
     unplaced_cubes sc' = unplaced_cubes sc \<and>
     container_object sc' = container_object sc"
  using assms(2)
proof (induction table arbitrary: n sc labels)
  case Nil
  then show ?case by simp
next
  case (Cons r table)
  then have len: "length r = (if dimensions self = D2 then 2 else 3)"
    and rest: "list_all (\<lambda>r. length r = (if dimensions self = D2 then 2 else 3)) table"
    by simp_all
  have ins: "in_axis_range_bounds_new spec_helpers self (map Num r) = Inr (inside_ranges self r)"
    using filter_numeric_row [OF assms(1) len] by (simp add: spec_helpers_def)
  show ?case
  proof (cases "inside_ranges self r")
    case False
    with ins Cons.IH [OF rest, of "Suc n" sc labels] show ?thesis
      by simp
  next
    case True
    from place_entry_numeric [OF assms(1) len assms(3,4,5), of n] obtain b where
      pe: "place_entry spec_helpers self (Num lo, Num hi) (if dimensions self = D2 then 1 else 2)
             n (map Num r) = Inr ([], b)"
      and x: "fst (location b) =
             (r ! 0 - fst (x_range (axis_settings self))) /
             (snd (x_range (axis_settings self)) - fst (x_range (axis_settings self)))"
      by blast
    from Cons.IH [OF rest, of "Suc n" "sc\<lparr>bars := bars sc @ [b]\<rparr>" labels] ins True pe x
    show ?thesis
      by simp
  qed
qed

lemma numeric_table_finishes:
  assumes "data_type self0 = Numerical"
    and "set_up_ranges spec_helpers self0 = (None, self)"
    and "data self0 = map (map Num) table"
    and "list_all (\<lambda>r. length r = (if dimensions self0 = D2 then 2 else 3)) table"
    and "fst (x_range (axis_settings self)) < snd (x_range (axis_settings self))"
    and "dimensions self0 = D2 \<or> fst (y_range (axis_settings self)) < snd (y_range (axis_settings self))"
    and "table \<noteq> []"
  shows "\<exists>sc.
     execute spec_helpers self0 = (FINISHED, self, sc) \<and>
     length (bars sc) = length (filter (inside_ranges self) table) \<and>
     map (\<lambda>b. fst (location b)) (bars sc) =
       map (\<lambda>r. (r ! 0 - fst (x_range (axis_settings self))) /
                 (snd (x_range (axis_settings self)) - fst (x_range (axis_settings self))))
         (filter (inside_ranges self) table) \<and>
     unplaced_cubes sc = 0"
proof -
  from assms(1,2) have num: "data_type self = Numerical" and d: "data self = data self0"
    and dims: "dimensions self = dimensions self0"
    by (simp_all add: set_up_ranges_frame set_up_ranges_numerical)
  from assms(4) dims have len: "list_all (\<lambda>r. length r = (if dimensions self = D2 then 2 else 3)) table"
    by simp
  from assms(6) dims have yr: "dimensions self = D2 \<or>
      fst (y_range (axis_settings self)) < snd (y_range (axis_settings self))"
    by simp
  from assms(7) obtain r rs where table: "table = r # rs"
    by (cases table) auto
  with len have "length r = (if dimensions self = D2 then 2 else 3)"
    by simp
  with table d assms(3) have two: "data_only_2d self = Inr False"
    by (simp add: data_only_2d_def)
  from find_data_range_numeric [OF len assms(7)] obtain lo hi where
    fd: "find_data_range_spec (map (map Num) table) (x_range (axis_settings self))
       (if dimensions self = D3 then Some (y_range (axis_settings self)) else None) =
     Inr (Num lo, Num hi)" and lohi: "lo < hi"
    by blast
  from fd num d assms(3) have vr: "value_range spec_helpers self = Inr (Num lo, Num hi)"
    by (simp add: value_range_def spec_helpers_def)
  from place_all_numeric [OF num len assms(5) yr lohi, of 0 "empty_scene\<lparr>container_object := True\<rparr>" "[]"]
  obtain sc' where
    pa: "place_all spec_helpers self (Num lo, Num hi) (if dimensions self = D2 then 1 else 2)
       (enumerate 0 (map (map Num) table)) (empty_scene\<lparr>container_object := True\<rparr>) [] = (None, sc', [])"
    and xs: "map (\<lambda>b. fst (location b)) (bars sc') =
       map (\<lambda>r. (r ! 0 - fst (x_range (axis_settings self))) /
                 (snd (x_range (axis_settings self)) - fst (x_range (axis_settings self))))
         (filter (inside_ranges self) table)"
    and cubes: "unplaced_cubes sc' = 0"
    by (auto simp: empty_scene_def)
  from xs have "length (bars sc') = length (filter (inside_ranges self) table)"
    by (metis length_map)
  with assms(2) two vr pa d assms(3) xs cubes show ?thesis
    by (simp add: execute_def)
qed

lemma run_example_numerical:
  "execute spec_helpers example_numerical =
     (FINISHED, example_numerical,
      \<lparr>container_object = True,
       bars = [\<lparr>scale = (0.05, 0.05, 1 / 6), location = (1 / 6, 0, 1 / 6)\<rparr>,
               \<lparr>scale = (0.05, 0.05, 1 / 3), location = (1 / 2, 0, 1 / 3)\<rparr>],
       unplaced_cubes = 0,
       axes = Some \<lparr>steps = (1, 1, 1), ranges = ((2, 8), (0, 1), Num 10, Num 40),
                    dimension = 2, tick_labels = ([], [], []), axis_padding = 0,
                    axis_auto_steps = True, offset = 0\<rparr>\<rparr>)"
  by (simp add: run_simps)

lemma run_example_all_outside:
  "execute spec_helpers example_all_outside =
     (FINISHED, example_all_outside,
      \<lparr>container_object = True, bars = [], unplaced_cubes = 0,
       axes = Some \<lparr>steps = (1, 1, 1), ranges = ((2, 8), (0, 1), Num 10, Num 40),
                    dimension = 2, tick_labels = ([], [], []), axis_padding = 0,
                    axis_auto_steps = True, offset = 0\<rparr>\<rparr>)"
  by (simp add: run_simps example_all_outside_def)

theorem bounds_filter_witness:
  "in_axis_range_bounds_new spec_helpers = in_axis_range_bounds_new_spec \<and>
   x_range (axis_settings example_numerical) = (2, 8) \<and>
   map (\<lambda>entry. item entry 0) (data example_numerical) = [Inr (Num 1), Inr (Num 3), Inr (Num 5), Inr (Num 9)] \<and>
   fst (execute spec_helpers example_numerical) = FINISHED \<and>
   filter (\<lambda>(i, entry). in_axis_range_bounds_new_spec example_numerical entry = Inr True)
     (enumerate 0 (data example_numerical)) = [(1 :: nat, [Num 3, Num 20]), (2, [Num 5, Num 30])] \<and>
   length (bars (snd (snd (execute spec_helpers example_numerical)))) = 2 \<and>
   map (\<lambda>b. fst (location b)) (bars (snd (snd (execute spec_helpers example_numerical)))) =
     [1 / 6, 1 / 2] \<and>
   list_all2
     (\<lambda>(i, entry) b. \<exists>first x_norm.
        item entry 0 = Inr first \<and>
        normalize_value spec_helpers first (Num 2) (Num 8) = Inr x_norm \<and>
        fst (location b) = x_norm)
     [(1 :: nat, [Num 3, Num 20]), (2, [Num 5, Num 30])]
     (bars (snd (snd (execute spec_helpers example_numerical)))) \<and>
   fst (execute spec_helpers example_all_outside) = FINISHED \<and>
   bars (snd (snd (execute spec_helpers example_all_outside))) = []"
proof -
  have filt: "in_axis_range_bounds_new spec_helpers = in_axis_range_bounds_new_spec"
    by (simp add: spec_helpers_def)
  have run: "execute spec_helpers example_numerical =
      (FINISHED, example_numerical, snd (snd (execute spec_helpers example_numerical)))"
    by (simp add: run_example_numerical)
  have xr: "x_range (axis_settings example_numerical) = (2, 8)"
    and num: "data_type example_numerical = Numerical"
    and col: "map (\<lambda>entry. item entry 0) (data example_numerical) =
        [Inr (Num 1), Inr (Num 3), Inr (Num 5), Inr (Num 9)]"
    by (simp_all add: example_numerical_def example_axis_def item_def)
  have kept: "filter (\<lambda>(i, entry). in_axis_range_bounds_new_spec example_numerical entry = Inr True)
     (enumerate 0 (data example_numerical)) = [(1 :: nat, [Num 3, Num 20]), (2, [Num 5, Num 30])]"
    by (simp add: example_numerical_def example_axis_def in_axis_range_bounds_new_spec_def
        item_def enumerate_eq_zip)
  have kept': "filter (\<lambda>entry. in_axis_range_bounds_new_spec example_numerical entry = Inr True)
     (data example_numerical) = [[Num 3, Num 20], [Num 5, Num 30]]"
    by (simp add: example_numerical_def example_axis_def in_axis_range_bounds_new_spec_def item_def)
  from bounds_filter [OF filt, of example_numerical 0 0 "[]" "(Num 0, Num 0)" 0 "[]" empty_scene "[]"
      example_numerical example_numerical "snd (snd (execute spec_helpers example_numerical))"] run
  have la: "list_all2
     (\<lambda>(i, entry) b. \<exists>first x_norm.
        item entry 0 = Inr first \<and>
        normalize_value spec_helpers first (Num 2) (Num 8) = Inr x_norm \<and>
        fst (location b) = x_norm)
     [(1 :: nat, [Num 3, Num 20]), (2, [Num 5, Num 30])]
     (bars (snd (snd (execute spec_helpers example_numerical))))"
    and len: "length (bars (snd (snd (execute spec_helpers example_numerical)))) = 2"
    unfolding kept kept' xr by (simp_all add: num eval_nat_numeral)
  have xs: "map (\<lambda>b. fst (location b)) (bars (snd (snd (execute spec_helpers example_numerical)))) =
     [1 / 6, 1 / 2]"
    by (simp add: run_example_numerical)
  have out: "fst (execute spec_helpers example_all_outside) = FINISHED"
    "bars (snd (snd (execute spec_helpers example_all_outside))) = []"
    by (simp_all add: run_example_all_outside)
  have fin: "fst (execute spec_helpers example_numerical) = FINISHED"
    by (simp add: run_example_numerical)
  from filt xr col fin kept la len xs out show ?thesis
    by simp
qed

end
